theory Spec2Isabelle
  imports Main "HOL-Library.Word"
begin

section \<open>JavaScript strings\<close>

text \<open>
  A JavaScript string is a sequence of 16-bit code units. \<open>js\<close> turns an ASCII literal
  into its code units. \<open>isWhiteSpace\<close> is the set that both \<^verbatim>\<open>String.prototype.trim\<close> and
  the regular expression class \<^verbatim>\<open>\s\<close> use (WhiteSpace and LineTerminator of ECMAScript).
\<close>

type_synonym jsstring = "16 word list"

definition js :: "string \<Rightarrow> jsstring" where
  "js s = map of_char s"

definition isWhiteSpace :: "16 word \<Rightarrow> bool" where
  "isWhiteSpace c = (c \<in> set [9, 10, 11, 12, 13, 32, 160, 5760, 8192, 8193, 8194, 8195,
     8196, 8197, 8198, 8199, 8200, 8201, 8202, 8232, 8233, 8239, 8287, 12288, 65279])"

definition trim :: "jsstring \<Rightarrow> jsstring" where
  "trim u = rev (dropWhile isWhiteSpace (rev (dropWhile isWhiteSpace u)))"

section \<open>Data model (App.tsx, interfaces Message, Chat, LoadedDocument)\<close>

datatype role = User | Assistant | System

record Message =
  role :: role
  content :: jsstring

record Chat =
  chat_id :: jsstring
  title :: jsstring
  messages :: "Message list"

record LoadedDocument =
  name :: jsstring
  doc_content :: jsstring

text \<open>
  What \<^verbatim>\<open>ragRetriever.getRelevantDocuments(q)\<close> resolves to: the page contents of the
  retrieved chunks in rank order, or a rejected promise.
\<close>

datatype retrieval = RetrievalRejected | Docs "jsstring list"

text \<open>
  The component state of \<^verbatim>\<open>App\<close>: one field per \<^verbatim>\<open>useState\<close> hook the modelled handlers
  read or write, and the ref \<^verbatim>\<open>utteranceStartIndexRef\<close>.
\<close>

record App =
  apiKey :: jsstring
  model :: jsstring
  chats :: "Chat list"
  activeChatId :: "jsstring option"
  input :: jsstring
  isLoading :: bool
  isMuted :: bool
  voiceCommandToSend :: "jsstring option"
  ragRetriever :: "(jsstring \<Rightarrow> retrieval) option"
  loadedDocuments :: "LoadedDocument list"
  utteranceStartIndex :: nat

text \<open>The initial values of the hooks; the API key comes from local storage.\<close>

definition initialApp :: "jsstring \<Rightarrow> App" where
  "initialApp key = \<lparr> apiKey = key, model = js ''gpt-4o'', chats = [], activeChatId = None,
     input = [], isLoading = False, isMuted = False, voiceCommandToSend = None,
     ragRetriever = None, loadedDocuments = [], utteranceStartIndex = 0 \<rparr>"

section \<open>Session store: handleNewChat, handleDeleteChat\<close>

text \<open>
  \<open>now\<close> is the value of \<^verbatim>\<open>Date.now().toString()\<close> at the call.
\<close>

definition handleNewChat :: "jsstring \<Rightarrow> App \<Rightarrow> App" where
  "handleNewChat now s =
     (let newChat = \<lparr> chat_id = now, title = js ''New Chat'', messages = [] \<rparr>
      in s\<lparr> chats := newChat # chats s, activeChatId := Some (chat_id newChat) \<rparr>)"

definition handleDeleteChat :: "jsstring \<Rightarrow> App \<Rightarrow> App" where
  "handleDeleteChat chatId s =
     (let s1 = s\<lparr> chats := filter (\<lambda>chat. chat_id chat \<noteq> chatId) (chats s) \<rparr>
      in if activeChatId s = Some chatId
         then (let remainingChats = filter (\<lambda>chat. chat_id chat \<noteq> chatId) (chats s)
               in s1\<lparr> activeChatId :=
                    (if length remainingChats > 0 then Some (chat_id (remainingChats ! 0))
                     else None) \<rparr>)
         else s1)"

text \<open>\<^verbatim>\<open>const activeChat = chats.find(chat => chat.id === activeChatId)\<close>\<close>

definition activeChat :: "App \<Rightarrow> Chat option" where
  "activeChat s = find (\<lambda>chat. Some (chat_id chat) = activeChatId s) (chats s)"




text \<open>
  A valid store: the active id is null exactly when the list is empty, and an active id
  names a chat of the list.
\<close>

definition store_inv :: "App \<Rightarrow> bool" where
  "store_inv s =
     ((activeChatId s = None) = (chats s = []) \<and>
      (case activeChatId s of None \<Rightarrow> True | Some a \<Rightarrow> a \<in> set (map chat_id (chats s))))"



section \<open>Effects and environment\<close>

text \<open>
  What a handler does to the outside world, in order: \<^verbatim>\<open>alert\<close>, the retriever query, a
  \<^verbatim>\<open>openai.chat.completions.create\<close> request (API key, model, messages), the two calls on
  \<^verbatim>\<open>window.speechSynthesis\<close>, and \<^verbatim>\<open>console.error\<close>.
\<close>

datatype effect =
    Alert jsstring
  | GetRelevantDocuments jsstring
  | CompletionsCreate jsstring jsstring "Message list"
  | SpeechCancel
  | SpeechSpeak jsstring
  | ConsoleError jsstring

text \<open>
  The answer to a completion request: the promise rejects (network error, API error), the
  response has no \<^verbatim>\<open>choices[0].message\<close> (reading it throws), or it carries
  \<^verbatim>\<open>choices[0].message.content\<close>, a string or null.
\<close>

datatype api_result = NetworkError | ApiError | MalformedResponse | Reply "jsstring option"

datatype js_error = TypeError | RetrievalError

text \<open>
  The environment of one call: \<open>clock\<close> is \<^verbatim>\<open>Date.now().toString()\<close>, \<open>create\<close> answers a
  completion request, \<open>speechSynthesis\<close> tells whether \<^verbatim>\<open>window.speechSynthesis\<close> exists.
\<close>

record Env =
  clock :: jsstring
  create :: "jsstring \<Rightarrow> jsstring \<Rightarrow> Message list \<Rightarrow> api_result"
  speechSynthesis :: bool

text \<open>
  An async handler either resolves or rejects; either way the state updates it queued and
  the effects it issued stand.
\<close>

datatype outcome =
    Resolved (final: App) (trace: "effect list")
  | Rejected (reason: js_error) (final: App) (trace: "effect list")

section \<open>Document store: handleFileUpload\<close>

text \<open>\<open>files\<close> are the name and text of each file of the FileList, in order.\<close>

definition handleFileUpload :: "LoadedDocument list \<Rightarrow> App \<Rightarrow> App \<times> effect list" where
  "handleFileUpload files s =
     (if apiKey s = []
      then (s, [Alert (js ''Please enter your OpenAI API key before loading documents.'')])
      else if files = [] then (s, [])
      else (let newDocs = files;
                prevDocs = loadedDocuments s;
                existingNames = set (map name prevDocs);
                filteredNewDocs = filter (\<lambda>d. name d \<notin> existingNames) newDocs
            in (s\<lparr> loadedDocuments := prevDocs @ filteredNewDocs \<rparr>, [])))"

section \<open>Persistence: the two local-storage keys\<close>

text \<open>
  The keys \<^verbatim>\<open>chatbot-chats\<close> and \<^verbatim>\<open>chatbot-active-chat-id\<close>. \<^verbatim>\<open>JSON.stringify\<close> and
  \<^verbatim>\<open>JSON.parse\<close> are the browser's; the store holds the chat list they encode, \<open>None\<close> for
  a key that was never written.
\<close>

record Storage =
  chatbot_chats :: "Chat list option"
  chatbot_active_chat_id :: "jsstring option"

text \<open>The effect that saves chats and active id; a null or empty id is not written.\<close>

definition saveChats :: "App \<Rightarrow> Storage \<Rightarrow> Storage" where
  "saveChats s st =
     (let st1 = st\<lparr> chatbot_chats := Some (chats s) \<rparr>
      in case activeChatId s of
           None \<Rightarrow> st1
         | Some a \<Rightarrow> if a \<noteq> [] then st1\<lparr> chatbot_active_chat_id := Some a \<rparr> else st1)"

text \<open>The mount effect that initializes the chats.\<close>

definition initChats :: "jsstring \<Rightarrow> Storage \<Rightarrow> App \<Rightarrow> App" where
  "initChats now st s =
     (case chatbot_chats st of
        None \<Rightarrow> handleNewChat now s
      | Some savedChats \<Rightarrow>
          if length savedChats > 0
          then (let savedActiveId = chatbot_active_chat_id st;
                    activeIdExists = list_ex (\<lambda>c. Some (chat_id c) = savedActiveId) savedChats
                in s\<lparr> chats := savedChats,
                      activeChatId := (if activeIdExists then savedActiveId
                                       else Some (chat_id (savedChats ! 0))) \<rparr>)
          else handleNewChat now s)"

section \<open>Voice input: recognition.onresult\<close>

record SpeechRecognitionResult =
  transcript :: jsstring
  isFinal :: bool

text \<open>
  \<^verbatim>\<open>/\s(send|sent)$/i\<close>: the match is the last five code units, a white space and the
  letters in either case (s 115/83, e 101/69, n 110/78, d 100/68, t 116/84).
\<close>

definition sendCommandSuffix :: "jsstring \<Rightarrow> bool" where
  "sendCommandSuffix w =
     (case w of
        [c0, c1, c2, c3, c4] \<Rightarrow>
          isWhiteSpace c0 \<and> (c1 = 115 \<or> c1 = 83) \<and> (c2 = 101 \<or> c2 = 69) \<and>
          (c3 = 110 \<or> c3 = 78) \<and> (c4 = 100 \<or> c4 = 68 \<or> c4 = 116 \<or> c4 = 84)
      | _ \<Rightarrow> False)"

definition sendCommandRegex_test :: "jsstring \<Rightarrow> bool" where
  "sendCommandRegex_test u = (5 \<le> length u \<and> sendCommandSuffix (drop (length u - 5) u))"

definition sendCommandRegex_replace :: "jsstring \<Rightarrow> jsstring" where
  "sendCommandRegex_replace u =
     (if sendCommandRegex_test u then take (length u - 5) u else u)"

text \<open>
  \<open>results\<close> is \<^verbatim>\<open>event.results\<close> (first alternative of each). Reading \<^verbatim>\<open>isFinal\<close> of the
  last result of an empty list throws after \<^verbatim>\<open>setInput\<close> was called.
\<close>

definition onresult :: "SpeechRecognitionResult list \<Rightarrow> App \<Rightarrow> js_error \<times> App + App" where
  "onresult results s =
     (let currentUtterance = concat (map transcript (drop (utteranceStartIndex s) results));
          s1 = s\<lparr> input := currentUtterance \<rparr>
      in if results = [] then Inl (TypeError, s1)
         else if isFinal (last results)
         then (if sendCommandRegex_test currentUtterance
               then (let messageToSend = trim (sendCommandRegex_replace currentUtterance)
                     in if messageToSend \<noteq> []
                        then Inr (s1\<lparr> voiceCommandToSend := Some messageToSend,
                                      utteranceStartIndex := length results \<rparr>)
                        else Inr s1)
               else Inr s1)
         else Inr s1)"

section \<open>Conversation engine: executeSend\<close>

text \<open>
  One call of \<^verbatim>\<open>executeSend\<close> is modelled from start to end with no other handler run
  between its awaits, so every state update, also the functional ones on \<^verbatim>\<open>prev\<close>, acts
  on the state the call itself has built. The answers of the retriever and of the
  completion API are inputs of the model.
\<close>

definition speak :: "Env \<Rightarrow> App \<Rightarrow> jsstring \<Rightarrow> effect list" where
  "speak E s t = (if isMuted s \<or> \<not> speechSynthesis E then [] else [SpeechCancel, SpeechSpeak t])"

definition systemPrompt :: Message where
  "systemPrompt = \<lparr> role = System, content = js (''You are a helpful digital consciousness '' @
     ''named Olly that has been created by Zachary Kulik as a demo for the company Olivia.'') \<rparr>"

definition errorMessageContent :: jsstring where
  "errorMessageContent = js ''Sorry, something went wrong.''"

text \<open>\<^verbatim>\<open>Array.prototype.join\<close> on strings.\<close>

fun join :: "jsstring \<Rightarrow> jsstring list \<Rightarrow> jsstring" where
  "join sep [] = []"
| "join sep [x] = x"
| "join sep (x # y # ys) = x @ sep @ join sep (y # ys)"

text \<open>The separator: two line feeds, three hyphens, two line feeds.\<close>

definition separator :: jsstring where
  "separator = [10, 10, 45, 45, 45, 10, 10]"

text \<open>
  The text before the context in the retrieval system message; 39 is the apostrophe and 10
  the line feed.
\<close>

definition contextInstruction :: jsstring where
  "contextInstruction = js ''Based on the following context, answer the user'' @ [39] @
     js ''s question.'' @ [10, 10] @ js ''Context:'' @ [10]"

text \<open>The first message pushed on \<^verbatim>\<open>messagesForApi\<close>.\<close>

definition system_message :: "jsstring \<Rightarrow> Message" where
  "system_message context =
     (if context \<noteq> [] then \<lparr> role = System, content = contextInstruction @ context \<rparr>
      else systemPrompt)"

text \<open>
  The retrieval step: the effects issued, and the context string or \<open>None\<close> when the
  retriever's promise rejects (outside the try block).
\<close>

definition retrieve_context :: "App \<Rightarrow> jsstring \<Rightarrow> effect list \<times> jsstring option" where
  "retrieve_context s messageContent =
     (case ragRetriever s of
        None \<Rightarrow> ([], Some [])
      | Some retriever \<Rightarrow>
          (case retriever messageContent of
             RetrievalRejected \<Rightarrow> ([GetRelevantDocuments messageContent], None)
           | Docs relevantDocs \<Rightarrow>
               ([GetRelevantDocuments messageContent], Some (join separator relevantDocs))))"

text \<open>
  Step 1: the target chat and the state with the user's message shown. A truthy active id
  that no chat carries makes \<^verbatim>\<open>currentChat.messages\<close> throw.
\<close>

definition resolve_target :: "Env \<Rightarrow> Message \<Rightarrow> App \<Rightarrow> js_error + Chat \<times> App" where
  "resolve_target E userMessage s =
     (let fresh = (let targetChat = \<lparr> chat_id = clock E, title = js ''New Chat'',
                                       messages = [userMessage] \<rparr>
                   in Inr (targetChat,
                           s\<lparr> activeChatId := Some (chat_id targetChat),
                              chats := targetChat # chats s \<rparr>))
      in case activeChatId s of
           None \<Rightarrow> fresh
         | Some a \<Rightarrow>
             if a \<noteq> []
             then (case find (\<lambda>c. chat_id c = a) (chats s) of
                     None \<Rightarrow> Inl TypeError
                   | Some currentChat \<Rightarrow>
                       (let updatedMessages = messages currentChat @ [userMessage]
                        in Inr (currentChat\<lparr> messages := updatedMessages \<rparr>,
                                s\<lparr> chats := map (\<lambda>c. if chat_id c = a
                                                      then c\<lparr> messages := updatedMessages \<rparr>
                                                      else c) (chats s) \<rparr>)))
             else fresh)"

text \<open>The title prompt; 34 is the double quote.\<close>

definition titlePrompt :: "jsstring \<Rightarrow> jsstring" where
  "titlePrompt messageContent =
     js (''Generate a short, concise title (3-5 words) for the following user query: '') @
     [34] @ messageContent @ [34]"

text \<open>\<^verbatim>\<open>content?.replace(/["']/g, '') || 'Chat'\<close>\<close>

definition newTitle_of :: "jsstring option \<Rightarrow> jsstring" where
  "newTitle_of c =
     (case c of
        None \<Rightarrow> js ''Chat''
      | Some t \<Rightarrow> (let r = filter (\<lambda>x. x \<noteq> 34 \<and> x \<noteq> 39) t
                   in if r \<noteq> [] then r else js ''Chat''))"

text \<open>\<^verbatim>\<open>setChats(prev => prev.map(c => c.id === targetChat.id ? { ...c, title: newTitle } : c))\<close>\<close>

definition rename_chat :: "jsstring \<Rightarrow> jsstring \<Rightarrow> App \<Rightarrow> App" where
  "rename_chat target newTitle s =
     s\<lparr> chats := map (\<lambda>c. if chat_id c = target then c\<lparr> title := newTitle \<rparr> else c) (chats s) \<rparr>"

text \<open>
  Step 2 of the try block. The first component tells whether the step threw.
\<close>

definition generate_title :: "Env \<Rightarrow> jsstring \<Rightarrow> Chat \<Rightarrow> App \<Rightarrow> bool \<times> App \<times> effect list" where
  "generate_title E messageContent targetChat s =
     (if length (messages targetChat) = 1
      then (let request = [\<lparr> role = User, content = titlePrompt messageContent \<rparr>];
                ev = [CompletionsCreate (apiKey s) (js ''gpt-4o'') request]
            in case create E (apiKey s) (js ''gpt-4o'') request of
                 Reply c \<Rightarrow> (False, rename_chat (chat_id targetChat) (newTitle_of c) s, ev)
               | _ \<Rightarrow> (True, s, ev))
      else (False, s, []))"

definition append_message :: "jsstring \<Rightarrow> Message \<Rightarrow> App \<Rightarrow> App" where
  "append_message target m s =
     s\<lparr> chats := map (\<lambda>c. if chat_id c = target then c\<lparr> messages := messages c @ [m] \<rparr> else c)
                     (chats s) \<rparr>"

text \<open>Steps 3 and 4 of the try block.\<close>

definition bot_response :: "Env \<Rightarrow> Chat \<Rightarrow> Message list \<Rightarrow> App \<Rightarrow> bool \<times> App \<times> effect list" where
  "bot_response E targetChat messagesForApi s =
     (let ev = [CompletionsCreate (apiKey s) (model s) messagesForApi]
      in case create E (apiKey s) (model s) messagesForApi of
           Reply c \<Rightarrow>
             (case c of
                None \<Rightarrow> (False, s, ev)
              | Some t \<Rightarrow>
                  if t \<noteq> []
                  then (False,
                        append_message (chat_id targetChat) \<lparr> role = Assistant, content = t \<rparr> s,
                        ev @ speak E s t)
                  else (False, s, ev))
         | _ \<Rightarrow> (True, s, ev))"

text \<open>The try block: the title step, then the main request unless the title step threw.\<close>

definition try_block :: "Env \<Rightarrow> jsstring \<Rightarrow> Chat \<Rightarrow> Message list \<Rightarrow> App \<Rightarrow> bool \<times> App \<times> effect list" where
  "try_block E messageContent targetChat messagesForApi s =
     (case generate_title E messageContent targetChat s of
        (threw, s1, ev1) \<Rightarrow>
          if threw then (True, s1, ev1)
          else (case bot_response E targetChat messagesForApi s1 of
                  (threw', s2, ev2) \<Rightarrow> (threw', s2, ev1 @ ev2)))"

text \<open>Step 5, the catch block.\<close>

definition catch_block :: "Env \<Rightarrow> Chat \<Rightarrow> App \<Rightarrow> App \<times> effect list" where
  "catch_block E targetChat s =
     (append_message (chat_id targetChat) \<lparr> role = Assistant, content = errorMessageContent \<rparr> s,
      ConsoleError (js ''Error calling OpenAI API:'') # speak E s errorMessageContent)"

text \<open>
  \<^verbatim>\<open>executeSend\<close> after its two guards, from \<^verbatim>\<open>setInput('')\<close> and \<^verbatim>\<open>setIsLoading(true)\<close>
  on; \<open>s1\<close> is the state with these two updates. The retrieval and the target lookup
  stand before the try block, so what they throw rejects the call and skips the
  \<^verbatim>\<open>finally\<close>.
\<close>

definition executeSend_body :: "Env \<Rightarrow> jsstring \<Rightarrow> App \<Rightarrow> outcome" where
  "executeSend_body E messageContent s1 =
     (case retrieve_context s1 messageContent of
        (ev0, None) \<Rightarrow> Rejected RetrievalError s1 ev0
      | (ev0, Some context) \<Rightarrow>
          (let userMessage = \<lparr> role = User, content = messageContent \<rparr>
           in case resolve_target E userMessage s1 of
                Inl e \<Rightarrow> Rejected e s1 ev0
              | Inr (targetChat, s2) \<Rightarrow>
                  (let messagesForApi = system_message context # messages targetChat
                   in case try_block E messageContent targetChat messagesForApi s2 of
                        (threw, s3, ev1) \<Rightarrow>
                          if threw
                          then (case catch_block E targetChat s3 of
                                  (s4, ev2) \<Rightarrow>
                                    Resolved (s4\<lparr> isLoading := False \<rparr>) (ev0 @ ev1 @ ev2))
                          else Resolved (s3\<lparr> isLoading := False \<rparr>) (ev0 @ ev1))))"

definition executeSend :: "Env \<Rightarrow> jsstring \<Rightarrow> App \<Rightarrow> outcome" where
  "executeSend E messageContent s =
     (if trim messageContent = [] \<or> isLoading s then Resolved s []
      else if apiKey s = [] then Resolved s [Alert (js ''Please enter your OpenAI API key.'')]
      else executeSend_body E messageContent (s\<lparr> input := [], isLoading := True \<rparr>))"

text \<open>The effect on \<^verbatim>\<open>voiceCommandToSend\<close>, and the handlers of the Send button and Enter key.\<close>

definition map_final :: "(App \<Rightarrow> App) \<Rightarrow> outcome \<Rightarrow> outcome" where
  "map_final g r =
     (case r of Resolved s ev \<Rightarrow> Resolved (g s) ev | Rejected e s ev \<Rightarrow> Rejected e (g s) ev)"

definition voiceCommandEffect :: "Env \<Rightarrow> App \<Rightarrow> outcome" where
  "voiceCommandEffect E s =
     (case voiceCommandToSend s of
        None \<Rightarrow> Resolved s []
      | Some m \<Rightarrow>
          if m \<noteq> []
          then map_final (\<lambda>s'. s'\<lparr> voiceCommandToSend := None \<rparr>) (executeSend E m s)
          else Resolved s [])"

definition handleSend :: "Env \<Rightarrow> App \<Rightarrow> outcome" where
  "handleSend E s = executeSend E (input s) s"

definition handleKeyPress :: "Env \<Rightarrow> jsstring \<Rightarrow> App \<Rightarrow> outcome" where
  "handleKeyPress E key s = (if key = js ''Enter'' then handleSend E s else Resolved s [])"

section \<open>Observations used to state the properties\<close>

text \<open>The messages of the first chat with the given id, as \<^verbatim>\<open>chats.find\<close> resolves it.\<close>

definition history :: "App \<Rightarrow> jsstring \<Rightarrow> Message list" where
  "history s t = (case find (\<lambda>c. chat_id c = t) (chats s) of None \<Rightarrow> [] | Some c \<Rightarrow> messages c)"

text \<open>
  The session a send targets: the active chat when the active id is truthy, else a new chat
  with the clock's id; and the messages that session holds before the send.
\<close>

definition target_id :: "Env \<Rightarrow> App \<Rightarrow> jsstring" where
  "target_id E s = (case activeChatId s of None \<Rightarrow> clock E | Some a \<Rightarrow> if a \<noteq> [] then a else clock E)"

definition prior_messages :: "App \<Rightarrow> Message list" where
  "prior_messages s =
     (case activeChatId s of None \<Rightarrow> [] | Some a \<Rightarrow> if a \<noteq> [] then history s a else [])"

text \<open>The send reaches its try block: the retriever does not reject and the active id resolves.\<close>

definition retrieval_resolves :: "App \<Rightarrow> jsstring \<Rightarrow> bool" where
  "retrieval_resolves s m =
     (case ragRetriever s of None \<Rightarrow> True | Some retriever \<Rightarrow> retriever m \<noteq> RetrievalRejected)"

definition target_resolves :: "App \<Rightarrow> bool" where
  "target_resolves s =
     (case activeChatId s of
        None \<Rightarrow> True
      | Some a \<Rightarrow> a = [] \<or> a \<in> set (map chat_id (chats s)))"

text \<open>The retrieved chunks joined by the separator; empty without a retriever.\<close>

definition context_of :: "App \<Rightarrow> jsstring \<Rightarrow> jsstring" where
  "context_of s m =
     (case ragRetriever s of
        None \<Rightarrow> []
      | Some retriever \<Rightarrow>
          (case retriever m of RetrievalRejected \<Rightarrow> [] | Docs relevantDocs \<Rightarrow> join separator relevantDocs))"

text \<open>
  The prompt in the specification's words: one system message, then the target session's
  history in order, then the user message just appended.
\<close>

definition spec_prompt :: "App \<Rightarrow> jsstring \<Rightarrow> Message list" where
  "spec_prompt s m =
     [if context_of s m \<noteq> [] then \<lparr> role = System, content = contextInstruction @ context_of s m \<rparr>
      else systemPrompt]
     @ prior_messages s @ [\<lparr> role = User, content = m \<rparr>]"

definition is_reply :: "api_result \<Rightarrow> bool" where
  "is_reply r = (case r of Reply c \<Rightarrow> True | _ \<Rightarrow> False)"

text \<open>The title request of a first exchange, and its answer.\<close>

definition title_request :: "jsstring \<Rightarrow> Message list" where
  "title_request m = [\<lparr> role = User, content = titlePrompt m \<rparr>]"

definition title_result :: "Env \<Rightarrow> App \<Rightarrow> jsstring \<Rightarrow> api_result" where
  "title_result E s m = create E (apiKey s) (js ''gpt-4o'') (title_request m)"

text \<open>The title of the first chat with the given id.\<close>

definition session_title :: "App \<Rightarrow> jsstring \<Rightarrow> jsstring" where
  "session_title s t = (case find (\<lambda>c. chat_id c = t) (chats s) of None \<Rightarrow> [] | Some c \<Rightarrow> title c)"

text \<open>
  What a title step that did not throw leaves: the renamed chat on a first exchange, the
  same state otherwise.
\<close>

definition title_step :: "Env \<Rightarrow> jsstring \<Rightarrow> Chat \<Rightarrow> App \<Rightarrow> App \<Rightarrow> bool" where
  "title_step E m tc s s' =
     (if length (messages tc) = 1
      then (\<exists>c. title_result E s m = Reply c \<and> s' = rename_chat (chat_id tc) (newTitle_of c) s)
      else s' = s)"

definition title_events :: "App \<Rightarrow> jsstring \<Rightarrow> Chat \<Rightarrow> effect list" where
  "title_events s m tc =
     (if length (messages tc) = 1
      then [CompletionsCreate (apiKey s) (js ''gpt-4o'') (title_request m)] else [])"

text \<open>The voice fields of the state, set together.\<close>

definition set_voice :: "jsstring \<Rightarrow> jsstring option \<Rightarrow> nat \<Rightarrow> App \<Rightarrow> App" where
  "set_voice i v n s = s\<lparr> input := i, voiceCommandToSend := v, utteranceStartIndex := n \<rparr>"

text \<open>The state a voice handler leaves, whether it threw or returned.\<close>

definition state_of :: "js_error \<times> App + App \<Rightarrow> App" where
  "state_of r = (case r of Inl (e, s) \<Rightarrow> s | Inr s \<Rightarrow> s)"

text \<open>\<open>s'\<close> differs from \<open>s\<close> in the titles of its chats only.\<close>

definition retitled :: "App \<Rightarrow> App \<Rightarrow> bool" where
  "retitled s s' = (\<exists>cs. s' = s\<lparr> chats := cs \<rparr> \<and>
     map (\<lambda>c. (chat_id c, messages c)) cs = map (\<lambda>c. (chat_id c, messages c)) (chats s))"

text \<open>The retriever query a send issues, if a retriever is set.\<close>

definition retrieval_events :: "App \<Rightarrow> jsstring \<Rightarrow> effect list" where
  "retrieval_events s m =
     (case ragRetriever s of None \<Rightarrow> [] | Some retriever \<Rightarrow> [GetRelevantDocuments m])"

section \<open>Example inputs\<close>

text \<open>
  A store with one empty chat, active; a store whose active chat holds one exchange; an
  environment that answers the title request (the only request of one message) and the
  main request as given.
\<close>

definition demo_app :: App where
  "demo_app = handleNewChat (js ''1'') (initialApp (js ''k''))"

definition demo_app_talked :: App where
  "demo_app_talked = (initialApp (js ''k''))
     \<lparr> chats := [\<lparr> chat_id = js ''1'', title = js ''T'',
                    messages = [\<lparr> role = User, content = js ''hi'' \<rparr>,
                                \<lparr> role = Assistant, content = js ''yo'' \<rparr>] \<rparr>],
       activeChatId := Some (js ''1'') \<rparr>"

definition demo_env :: "api_result \<Rightarrow> api_result \<Rightarrow> Env" where
  "demo_env titleAnswer mainAnswer =
     \<lparr> clock = js ''2'',
       create = (\<lambda>k mo ms. if length ms = 1 then titleAnswer else mainAnswer),
       speechSynthesis = True \<rparr>"

section \<open>Session store: proofs\<close>

lemma store_inv_handleNewChat: "store_inv (handleNewChat now s)"
  by (simp add: store_inv_def handleNewChat_def)





lemma chats_handleDeleteChat:
  "chats (handleDeleteChat chatId s) = filter (\<lambda>chat. chat_id chat \<noteq> chatId) (chats s)"
  by (simp add: handleDeleteChat_def Let_def)











text \<open>
  C7. deleteSession(id): if id is the active session, the head of the remaining list
  becomes active, or none if the list becomes empty; if id is not the active id, the
  active session (and every other field) is unchanged and only the chats with that id leave
  the list; if id is not present, the operation changes neither the list nor, in a valid
  store or whenever id is not the active id, anything else.
\<close>

theorem handleDeleteChat_cases:
  "(activeChatId s = Some chatId \<longrightarrow>
      chats (handleDeleteChat chatId s) = filter (\<lambda>chat. chat_id chat \<noteq> chatId) (chats s) \<and>
      activeChatId (handleDeleteChat chatId s) =
        (case filter (\<lambda>chat. chat_id chat \<noteq> chatId) (chats s) of
           [] \<Rightarrow> None | c # rest \<Rightarrow> Some (chat_id c))) \<and>
   (activeChatId s \<noteq> Some chatId \<longrightarrow>
      handleDeleteChat chatId s =
        s\<lparr> chats := filter (\<lambda>chat. chat_id chat \<noteq> chatId) (chats s) \<rparr> \<and>
      activeChatId (handleDeleteChat chatId s) = activeChatId s) \<and>
   (chatId \<notin> set (map chat_id (chats s)) \<longrightarrow>
      chats (handleDeleteChat chatId s) = chats s \<and>
      (store_inv s \<or> activeChatId s \<noteq> Some chatId \<longrightarrow> handleDeleteChat chatId s = s))"
proof (intro conjI impI)
  assume a: "activeChatId s = Some chatId"
  show "chats (handleDeleteChat chatId s) = filter (\<lambda>chat. chat_id chat \<noteq> chatId) (chats s)"
    by (rule chats_handleDeleteChat)
  show "activeChatId (handleDeleteChat chatId s) =
        (case filter (\<lambda>chat. chat_id chat \<noteq> chatId) (chats s) of
           [] \<Rightarrow> None | c # rest \<Rightarrow> Some (chat_id c))"
    using a by (cases "filter (\<lambda>chat. chat_id chat \<noteq> chatId) (chats s)")
      (simp_all add: handleDeleteChat_def)
next
  assume "activeChatId s \<noteq> Some chatId"
  then show "handleDeleteChat chatId s =
        s\<lparr> chats := filter (\<lambda>chat. chat_id chat \<noteq> chatId) (chats s) \<rparr>"
    and "activeChatId (handleDeleteChat chatId s) = activeChatId s"
    by (simp_all add: handleDeleteChat_def)
next
  assume absent: "chatId \<notin> set (map chat_id (chats s))"
  then have same: "filter (\<lambda>chat. chat_id chat \<noteq> chatId) (chats s) = chats s"
    by (simp add: filter_id_conv image_iff) blast
  then show "chats (handleDeleteChat chatId s) = chats s"
    by (simp add: chats_handleDeleteChat)
  assume "store_inv s \<or> activeChatId s \<noteq> Some chatId"
  with absent have "activeChatId s \<noteq> Some chatId"
    by (auto simp: store_inv_def)
  with same show "handleDeleteChat chatId s = s"
    by (simp add: handleDeleteChat_def)
qed

theorem handleDeleteChat_cases_witness:
  "activeChatId (handleNewChat (js ''2'') (handleNewChat (js ''1'') (initialApp []))) = Some (js ''2'') \<and>
   activeChatId (handleDeleteChat (js ''2'')
      (handleNewChat (js ''2'') (handleNewChat (js ''1'') (initialApp [])))) = Some (js ''1'') \<and>
   activeChatId (handleNewChat (js ''2'') (handleNewChat (js ''1'') (initialApp []))) \<noteq> Some (js ''1'') \<and>
   activeChatId (handleDeleteChat (js ''1'')
      (handleNewChat (js ''2'') (handleNewChat (js ''1'') (initialApp [])))) = Some (js ''2'') \<and>
   js ''9'' \<notin> set (map chat_id (chats (handleNewChat (js ''2'') (handleNewChat (js ''1'') (initialApp []))))) \<and>
   store_inv (handleNewChat (js ''2'') (handleNewChat (js ''1'') (initialApp []))) \<and>
   handleDeleteChat (js ''9'') (handleNewChat (js ''2'') (handleNewChat (js ''1'') (initialApp [])))
     = handleNewChat (js ''2'') (handleNewChat (js ''1'') (initialApp []))"
proof -
  have a: "activeChatId (handleNewChat (js ''2'') (handleNewChat (js ''1'') (initialApp [])))
      = Some (js ''2'')"
    by (simp add: handleNewChat_def)
  have b: "activeChatId (handleNewChat (js ''2'') (handleNewChat (js ''1'') (initialApp [])))
      \<noteq> Some (js ''1'')"
    by (simp add: handleNewChat_def js_def)
  have c: "js ''9'' \<notin> set (map chat_id (chats (handleNewChat (js ''2'')
      (handleNewChat (js ''1'') (initialApp [])))))"
    by (simp add: handleNewChat_def js_def initialApp_def)
  have d: "store_inv (handleNewChat (js ''2'') (handleNewChat (js ''1'') (initialApp [])))"
    by (rule store_inv_handleNewChat)
  have e: "filter (\<lambda>chat. chat_id chat \<noteq> js ''2'')
      (chats (handleNewChat (js ''2'') (handleNewChat (js ''1'') (initialApp []))))
      = [\<lparr> chat_id = js ''1'', title = js ''New Chat'', messages = [] \<rparr>]"
    by (simp add: handleNewChat_def js_def initialApp_def)
  from handleDeleteChat_cases [of "handleNewChat (js ''2'') (handleNewChat (js ''1'') (initialApp []))" "js ''2''"]
    handleDeleteChat_cases [of "handleNewChat (js ''2'') (handleNewChat (js ''1'') (initialApp []))" "js ''1''"]
    handleDeleteChat_cases [of "handleNewChat (js ''2'') (handleNewChat (js ''1'') (initialApp []))" "js ''9''"]
    a b c d e
  show ?thesis by simp
qed

section \<open>Conversation engine: proofs\<close>

lemma retitled_refl: "retitled s s"
  unfolding retitled_def by (rule exI [of _ "chats s"]) simp

lemma find_id_messages:
  "map (\<lambda>c. (chat_id c, messages c)) cs' = map (\<lambda>c. (chat_id c, messages c)) cs \<Longrightarrow>
   map_option messages (find (\<lambda>c. chat_id c = t) cs') = map_option messages (find (\<lambda>c. chat_id c = t) cs)"
proof (induction cs arbitrary: cs')
  case Nil
  then show ?case by simp
next
  case (Cons c cs)
  then obtain d ds where "cs' = d # ds" by (cases cs') auto
  with Cons show ?case by auto
qed

lemma history_alt: "history s t = (case map_option messages (find (\<lambda>c. chat_id c = t) (chats s)) of None \<Rightarrow> [] | Some ms \<Rightarrow> ms)"
  by (simp add: history_def split: option.splits)

lemma retitled_history:
  assumes "retitled s s'"
  shows "history s' t = history s t"
proof -
  from assms obtain cs where e: "s' = s\<lparr> chats := cs \<rparr>"
    and m: "map (\<lambda>c. (chat_id c, messages c)) cs = map (\<lambda>c. (chat_id c, messages c)) (chats s)"
    unfolding retitled_def by blast
  from find_id_messages [OF m, of t] show ?thesis
    by (simp add: history_alt e)
qed

lemma retitled_ids:
  assumes "retitled s s'"
  shows "map chat_id (chats s') = map chat_id (chats s)"
proof -
  from assms obtain cs where e: "s' = s\<lparr> chats := cs \<rparr>"
    and m: "map (\<lambda>c. (chat_id c, messages c)) cs = map (\<lambda>c. (chat_id c, messages c)) (chats s)"
    unfolding retitled_def by blast
  from m have "map fst (map (\<lambda>c. (chat_id c, messages c)) cs) =
             map fst (map (\<lambda>c. (chat_id c, messages c)) (chats s))"
    by (rule arg_cong)
  then show ?thesis by (simp add: comp_def e)
qed

lemma retitled_fields:
  assumes "retitled s s'"
  shows "apiKey s' = apiKey s" "model s' = model s" "isMuted s' = isMuted s"
    "isLoading s' = isLoading s" "activeChatId s' = activeChatId s"
proof -
  from assms obtain cs where e: "s' = s\<lparr> chats := cs \<rparr>"
    unfolding retitled_def by blast
  show "apiKey s' = apiKey s" "model s' = model s" "isMuted s' = isMuted s"
    "isLoading s' = isLoading s" "activeChatId s' = activeChatId s"
    by (simp_all add: e)
qed

lemma retitled_rename: "retitled s (rename_chat t x s)"
  unfolding retitled_def rename_chat_def
  by (rule exI [of _ "map (\<lambda>c. if chat_id c = t then c\<lparr> title := x \<rparr> else c) (chats s)"])
     (simp add: comp_def)

lemma speak_retitled: "retitled s s' \<Longrightarrow> speak E s' t = speak E s t"
  by (simp add: speak_def retitled_fields)

lemma title_step_retitled: "title_step E m tc s s' \<Longrightarrow> retitled s s'"
  by (auto simp: title_step_def retitled_refl retitled_rename split: if_splits)

lemma generate_title_cases:
  obtains (title_failed) "length (messages tc) = 1" "\<not> is_reply (title_result E s m)"
      "generate_title E m tc s = (True, s, title_events s m tc)"
  | (title_done) s' where "title_step E m tc s s'"
      "generate_title E m tc s = (False, s', title_events s m tc)"
proof (cases "length (messages tc) = 1")
  case False
  then have "generate_title E m tc s = (False, s, title_events s m tc)" "title_step E m tc s s"
    by (simp_all add: generate_title_def title_events_def title_step_def)
  then show ?thesis using title_done by blast
next
  case True
  show ?thesis
  proof (cases "title_result E s m")
    case (Reply c)
    with True have "generate_title E m tc s =
        (False, rename_chat (chat_id tc) (newTitle_of c) s, title_events s m tc)"
      "title_step E m tc s (rename_chat (chat_id tc) (newTitle_of c) s)"
      by (simp_all add: generate_title_def title_result_def title_request_def title_events_def
          title_step_def)
    then show ?thesis using title_done by blast
  next
    case NetworkError
    with True have "generate_title E m tc s = (True, s, title_events s m tc)"
      "\<not> is_reply (title_result E s m)"
      by (simp_all add: generate_title_def title_result_def title_request_def title_events_def
          is_reply_def)
    then show ?thesis using title_failed True by blast
  next
    case ApiError
    with True have "generate_title E m tc s = (True, s, title_events s m tc)"
      "\<not> is_reply (title_result E s m)"
      by (simp_all add: generate_title_def title_result_def title_request_def title_events_def
          is_reply_def)
    then show ?thesis using title_failed True by blast
  next
    case MalformedResponse
    with True have "generate_title E m tc s = (True, s, title_events s m tc)"
      "\<not> is_reply (title_result E s m)"
      by (simp_all add: generate_title_def title_result_def title_request_def title_events_def
          is_reply_def)
    then show ?thesis using title_failed True by blast
  qed
qed

lemma bot_response_cases:
  obtains (main_failed) "\<not> is_reply (create E (apiKey s) (model s) ms)"
      "bot_response E tc ms s = (True, s, [CompletionsCreate (apiKey s) (model s) ms])"
  | (empty_reply) "create E (apiKey s) (model s) ms = Reply None \<or>
       create E (apiKey s) (model s) ms = Reply (Some [])"
      "bot_response E tc ms s = (False, s, [CompletionsCreate (apiKey s) (model s) ms])"
  | (reply) t where "create E (apiKey s) (model s) ms = Reply (Some t)" "t \<noteq> []"
      "bot_response E tc ms s =
         (False, append_message (chat_id tc) \<lparr> role = Assistant, content = t \<rparr> s,
          CompletionsCreate (apiKey s) (model s) ms # speak E s t)"
proof (cases "create E (apiKey s) (model s) ms")
  case NetworkError
  then have "\<not> is_reply (create E (apiKey s) (model s) ms)"
    "bot_response E tc ms s = (True, s, [CompletionsCreate (apiKey s) (model s) ms])"
    by (simp_all add: bot_response_def is_reply_def)
  then show ?thesis using main_failed by blast
next
  case ApiError
  then have "\<not> is_reply (create E (apiKey s) (model s) ms)"
    "bot_response E tc ms s = (True, s, [CompletionsCreate (apiKey s) (model s) ms])"
    by (simp_all add: bot_response_def is_reply_def)
  then show ?thesis using main_failed by blast
next
  case MalformedResponse
  then have "\<not> is_reply (create E (apiKey s) (model s) ms)"
    "bot_response E tc ms s = (True, s, [CompletionsCreate (apiKey s) (model s) ms])"
    by (simp_all add: bot_response_def is_reply_def)
  then show ?thesis using main_failed by blast
next
  case (Reply c)
  show ?thesis
  proof (cases c)
    case None
    with Reply have "bot_response E tc ms s = (False, s, [CompletionsCreate (apiKey s) (model s) ms])"
      by (simp add: bot_response_def)
    with Reply None show ?thesis using empty_reply by blast
  next
    case (Some t)
    show ?thesis
    proof (cases "t = []")
      case True
      with Reply Some have "bot_response E tc ms s = (False, s, [CompletionsCreate (apiKey s) (model s) ms])"
        by (simp add: bot_response_def)
      with Reply Some True show ?thesis using empty_reply by blast
    next
      case False
      with Reply Some have "bot_response E tc ms s =
         (False, append_message (chat_id tc) \<lparr> role = Assistant, content = t \<rparr> s,
          CompletionsCreate (apiKey s) (model s) ms # speak E s t)"
        by (simp add: bot_response_def)
      with Reply Some False show ?thesis using reply by blast
    qed
  qed
qed

lemma title_step_fields:
  assumes "title_step E m tc s s'"
  shows "apiKey s' = apiKey s" "model s' = model s" "isMuted s' = isMuted s"
  using title_step_retitled [OF assms] by (simp_all add: retitled_fields)

lemma try_block_cases:
  obtains (title_failed) "length (messages tc) = 1" "\<not> is_reply (title_result E s m)"
      "try_block E m tc ms s = (True, s, title_events s m tc)"
  | (main_failed) s' where "title_step E m tc s s'"
      "\<not> is_reply (create E (apiKey s) (model s) ms)"
      "try_block E m tc ms s =
         (True, s', title_events s m tc @ [CompletionsCreate (apiKey s) (model s) ms])"
  | (empty_reply) s' where "title_step E m tc s s'"
      "create E (apiKey s) (model s) ms = Reply None \<or>
       create E (apiKey s) (model s) ms = Reply (Some [])"
      "try_block E m tc ms s =
         (False, s', title_events s m tc @ [CompletionsCreate (apiKey s) (model s) ms])"
  | (reply) s' t where "title_step E m tc s s'"
      "create E (apiKey s) (model s) ms = Reply (Some t)" "t \<noteq> []"
      "try_block E m tc ms s =
         (False, append_message (chat_id tc) \<lparr> role = Assistant, content = t \<rparr> s',
          title_events s m tc @ CompletionsCreate (apiKey s) (model s) ms # speak E s t)"
proof (cases rule: generate_title_cases [of tc E s m])
  case title_failed
  then have "try_block E m tc ms s = (True, s, title_events s m tc)"
    by (simp add: try_block_def)
  with title_failed show ?thesis using that(1) by blast
next
  case (title_done s')
  note f = title_step_fields [OF title_done(1)]
  show ?thesis
  proof (cases rule: bot_response_cases [of E s' ms tc])
    case main_failed
    with title_done f show ?thesis using that(2) [of s'] by (simp add: try_block_def)
  next
    case empty_reply
    with title_done f show ?thesis using that(3) [of s'] by (simp add: try_block_def)
  next
    case (reply t)
    with title_done f show ?thesis using that(4) [of s' t]
      by (simp add: try_block_def speak_retitled [OF title_step_retitled [OF title_done(1)]])
  qed
qed

lemma find_map_keep_id:
  assumes "\<And>c. chat_id (f c) = chat_id c"
  shows "find (\<lambda>c. chat_id c = t) (map f cs) = map_option f (find (\<lambda>c. chat_id c = t) cs)"
  using assms by (induction cs) simp_all

lemma find_present:
  "t \<in> set (map chat_id cs) \<Longrightarrow> \<exists>c. find (\<lambda>c. chat_id c = t) cs = Some c \<and> chat_id c = t"
  by (induction cs) auto

lemma history_append_message:
  assumes "t \<in> set (map chat_id (chats s))"
  shows "history (append_message t x s) t = history s t @ [x]"
proof -
  from find_present [OF assms] obtain c where c: "find (\<lambda>c. chat_id c = t) (chats s) = Some c" "chat_id c = t"
    by blast
  have "find (\<lambda>c. chat_id c = t) (map (\<lambda>c. if chat_id c = t then c\<lparr> messages := messages c @ [x] \<rparr> else c) (chats s))
      = map_option (\<lambda>c. if chat_id c = t then c\<lparr> messages := messages c @ [x] \<rparr> else c)
          (find (\<lambda>c. chat_id c = t) (chats s))"
    by (rule find_map_keep_id) simp
  with c show ?thesis by (simp add: history_def append_message_def)
qed

lemma session_title_append_message:
  "session_title (append_message t x s) t' = session_title s t'"
proof -
  have "find (\<lambda>c. chat_id c = t') (map (\<lambda>c. if chat_id c = t then c\<lparr> messages := messages c @ [x] \<rparr> else c) (chats s))
      = map_option (\<lambda>c. if chat_id c = t then c\<lparr> messages := messages c @ [x] \<rparr> else c)
          (find (\<lambda>c. chat_id c = t') (chats s))"
    by (rule find_map_keep_id) simp
  then show ?thesis
    by (cases "find (\<lambda>c. chat_id c = t') (chats s)") (simp_all add: session_title_def append_message_def)
qed

lemma session_title_rename_chat:
  assumes "t \<in> set (map chat_id (chats s))"
  shows "session_title (rename_chat t x s) t = x"
proof -
  from find_present [OF assms] obtain c where c: "find (\<lambda>c. chat_id c = t) (chats s) = Some c" "chat_id c = t"
    by blast
  have "find (\<lambda>c. chat_id c = t) (map (\<lambda>c. if chat_id c = t then c\<lparr> title := x \<rparr> else c) (chats s))
      = map_option (\<lambda>c. if chat_id c = t then c\<lparr> title := x \<rparr> else c)
          (find (\<lambda>c. chat_id c = t) (chats s))"
    by (rule find_map_keep_id) simp
  with c show ?thesis by (simp add: session_title_def rename_chat_def)
qed

lemma retrieve_context_ok:
  "retrieval_resolves s m \<Longrightarrow>
   retrieve_context s m = (retrieval_events s m, Some (context_of s m))"
  by (simp add: retrieval_resolves_def retrieve_context_def retrieval_events_def context_of_def
      split: option.splits retrieval.splits)

lemma resolve_target_ok:
  assumes "target_resolves s"
  obtains tc s2 where "resolve_target E u s = Inr (tc, s2)"
    "chat_id tc = target_id E s" "messages tc = prior_messages s @ [u]"
    "history s2 (target_id E s) = prior_messages s @ [u]"
    "target_id E s \<in> set (map chat_id (chats s2))"
    "apiKey s2 = apiKey s" "model s2 = model s" "isMuted s2 = isMuted s"
    "ragRetriever s2 = ragRetriever s"
proof (cases "\<exists>a. activeChatId s = Some a \<and> a \<noteq> []")
  case False
  define tc where "tc = \<lparr> chat_id = clock E, title = js ''New Chat'', messages = [u] \<rparr>"
  define s2 where "s2 = s\<lparr> activeChatId := Some (chat_id tc), chats := tc # chats s \<rparr>"
  from False have r: "resolve_target E u s = Inr (tc, s2)"
    by (cases "activeChatId s") (auto simp: resolve_target_def tc_def s2_def Let_def)
  from False have t: "target_id E s = clock E" "prior_messages s = []"
    by (cases "activeChatId s"; auto simp: target_id_def prior_messages_def)+
  show ?thesis
    by (rule that [OF r]) (simp_all add: t tc_def s2_def history_def)
next
  case True
  then obtain a where a: "activeChatId s = Some a" "a \<noteq> []" by blast
  with assms have "a \<in> set (map chat_id (chats s))"
    by (simp add: target_resolves_def)
  from find_present [OF this] obtain cur where cur:
    "find (\<lambda>c. chat_id c = a) (chats s) = Some cur" "chat_id cur = a" by blast
  define um where "um = messages cur @ [u]"
  define tc where "tc = cur\<lparr> messages := um \<rparr>"
  define s2 where "s2 = s\<lparr> chats := map (\<lambda>c. if chat_id c = a then c\<lparr> messages := um \<rparr> else c) (chats s) \<rparr>"
  from a cur have r: "resolve_target E u s = Inr (tc, s2)"
    by (simp add: resolve_target_def tc_def s2_def um_def Let_def)
  from a cur have t: "target_id E s = a" "prior_messages s = messages cur"
    by (simp_all add: target_id_def prior_messages_def history_def)
  have f: "find (\<lambda>c. chat_id c = a) (map (\<lambda>c. if chat_id c = a then c\<lparr> messages := um \<rparr> else c) (chats s))
      = map_option (\<lambda>c. if chat_id c = a then c\<lparr> messages := um \<rparr> else c)
          (find (\<lambda>c. chat_id c = a) (chats s))"
    by (rule find_map_keep_id) simp
  have ids: "map chat_id (chats s2) = map chat_id (chats s)"
    by (simp add: s2_def comp_def)
  show ?thesis
  proof (rule that [OF r])
    show "chat_id tc = target_id E s" by (simp add: t tc_def cur)
    show "messages tc = prior_messages s @ [u]" by (simp add: t tc_def um_def)
    show "history s2 (target_id E s) = prior_messages s @ [u]"
      using f cur by (simp add: t history_def s2_def um_def)
    show "target_id E s \<in> set (map chat_id (chats s2))"
      unfolding ids t using \<open>a \<in> set (map chat_id (chats s))\<close> .
    show "apiKey s2 = apiKey s" "model s2 = model s" "isMuted s2 = isMuted s"
      "ragRetriever s2 = ragRetriever s"
      by (simp_all add: s2_def)
  qed
qed

lemma loading_frame:
  "target_resolves (s\<lparr> input := i, isLoading := b \<rparr>) = target_resolves s"
  "retrieval_resolves (s\<lparr> input := i, isLoading := b \<rparr>) m = retrieval_resolves s m"
  "target_id E (s\<lparr> input := i, isLoading := b \<rparr>) = target_id E s"
  "prior_messages (s\<lparr> input := i, isLoading := b \<rparr>) = prior_messages s"
  "context_of (s\<lparr> input := i, isLoading := b \<rparr>) m = context_of s m"
  "retrieval_events (s\<lparr> input := i, isLoading := b \<rparr>) m = retrieval_events s m"
  by (simp_all add: target_resolves_def retrieval_resolves_def target_id_def prior_messages_def
      context_of_def retrieval_events_def history_def split: option.splits)

lemma spec_prompt_eq:
  "system_message (context_of s m) # prior_messages s @ [\<lparr> role = User, content = m \<rparr>] = spec_prompt s m"
  by (simp add: spec_prompt_def system_message_def)

lemma executeSend_reaches_try:
  assumes "trim m \<noteq> []" "\<not> isLoading s" "apiKey s \<noteq> []"
    and "retrieval_resolves s m" "target_resolves s"
  obtains tc s2 where
    "chat_id tc = target_id E s"
    "messages tc = prior_messages s @ [\<lparr> role = User, content = m \<rparr>]"
    "history s2 (target_id E s) = prior_messages s @ [\<lparr> role = User, content = m \<rparr>]"
    "target_id E s \<in> set (map chat_id (chats s2))"
    "apiKey s2 = apiKey s" "model s2 = model s" "isMuted s2 = isMuted s"
    "executeSend E m s =
       (case try_block E m tc (spec_prompt s m) s2 of
          (threw, s3, ev1) \<Rightarrow>
            if threw
            then Resolved ((append_message (target_id E s)
                     \<lparr> role = Assistant, content = errorMessageContent \<rparr> s3)\<lparr> isLoading := False \<rparr>)
                   (retrieval_events s m @ ev1 @
                    ConsoleError (js ''Error calling OpenAI API:'') # speak E s3 errorMessageContent)
            else Resolved (s3\<lparr> isLoading := False \<rparr>) (retrieval_events s m @ ev1))"
proof -
  define s1 where "s1 = s\<lparr> input := [], isLoading := True \<rparr>"
  have tr: "target_resolves s1" and rr: "retrieval_resolves s1 m"
    using assms(4,5) by (simp_all add: s1_def loading_frame)
  obtain tc s2 where r: "resolve_target E \<lparr> role = User, content = m \<rparr> s1 = Inr (tc, s2)"
    and t: "chat_id tc = target_id E s1"
      "messages tc = prior_messages s1 @ [\<lparr> role = User, content = m \<rparr>]"
      "history s2 (target_id E s1) = prior_messages s1 @ [\<lparr> role = User, content = m \<rparr>]"
      "target_id E s1 \<in> set (map chat_id (chats s2))"
      "apiKey s2 = apiKey s1" "model s2 = model s1" "isMuted s2 = isMuted s1"
    using resolve_target_ok [OF tr, of E "\<lparr> role = User, content = m \<rparr>"] by metis
  have f: "target_id E s1 = target_id E s" "prior_messages s1 = prior_messages s"
    "context_of s1 m = context_of s m" "retrieval_events s1 m = retrieval_events s m"
    "apiKey s1 = apiKey s" "model s1 = model s" "isMuted s1 = isMuted s"
    by (simp_all add: s1_def loading_frame)
  have p: "system_message (context_of s m) # messages tc = spec_prompt s m"
    using t(2) by (simp add: f spec_prompt_eq)
  have "executeSend E m s = executeSend_body E m s1"
    using assms(1-3) by (simp add: executeSend_def s1_def)
  also have "\<dots> =
       (case try_block E m tc (spec_prompt s m) s2 of
          (threw, s3, ev1) \<Rightarrow>
            if threw
            then Resolved ((append_message (target_id E s)
                     \<lparr> role = Assistant, content = errorMessageContent \<rparr> s3)\<lparr> isLoading := False \<rparr>)
                   (retrieval_events s m @ ev1 @
                    ConsoleError (js ''Error calling OpenAI API:'') # speak E s3 errorMessageContent)
            else Resolved (s3\<lparr> isLoading := False \<rparr>) (retrieval_events s m @ ev1))"
    unfolding executeSend_body_def retrieve_context_ok [OF rr] f
    by (simp add: r p t(1) f catch_block_def split: prod.splits)
  finally show ?thesis
    using that [of tc s2] t by (simp add: f)
qed

lemma title_step_observed:
  assumes "title_step E m tc s2 s'" "chat_id tc = t" "t \<in> set (map chat_id (chats s2))"
    "apiKey s2 = apiKey s"
  shows "history s' t = history s2 t" "t \<in> set (map chat_id (chats s'))"
    "isMuted s' = isMuted s2"
    "length (messages tc) = 1 \<longrightarrow>
       (\<exists>c. title_result E s m = Reply c \<and> session_title s' t = newTitle_of c)"
proof -
  note r = title_step_retitled [OF assms(1)]
  show "history s' t = history s2 t" by (rule retitled_history [OF r])
  show "t \<in> set (map chat_id (chats s'))" using assms(3) by (simp add: retitled_ids [OF r])
  show "isMuted s' = isMuted s2" by (rule retitled_fields [OF r])
  show "length (messages tc) = 1 \<longrightarrow>
       (\<exists>c. title_result E s m = Reply c \<and> session_title s' t = newTitle_of c)"
  proof
    assume "length (messages tc) = 1"
    with assms(1) obtain c where c: "title_result E s2 m = Reply c"
      "s' = rename_chat (chat_id tc) (newTitle_of c) s2"
      by (auto simp: title_step_def)
    from c(1) assms(4) have "title_result E s m = Reply c" by (simp add: title_result_def)
    moreover from c(2) assms(2,3) have "session_title s' t = newTitle_of c"
      by (simp add: session_title_rename_chat)
    ultimately show "\<exists>c. title_result E s m = Reply c \<and> session_title s' t = newTitle_of c"
      by blast
  qed
qed

lemma executeSend_outcomes:
  assumes "trim m \<noteq> []" "\<not> isLoading s" "apiKey s \<noteq> []"
    and "retrieval_resolves s m" "target_resolves s"
  obtains
    (title_failed) s2 where
      "prior_messages s = []" "\<not> is_reply (title_result E s m)"
      "history s2 (target_id E s) = [\<lparr> role = User, content = m \<rparr>]"
      "target_id E s \<in> set (map chat_id (chats s2))"
      "executeSend E m s =
         Resolved ((append_message (target_id E s)
             \<lparr> role = Assistant, content = errorMessageContent \<rparr> s2)\<lparr> isLoading := False \<rparr>)
           (retrieval_events s m @
            CompletionsCreate (apiKey s) (js ''gpt-4o'') (title_request m) #
            ConsoleError (js ''Error calling OpenAI API:'') # speak E s errorMessageContent)"
  | (main_failed) s' where
      "history s' (target_id E s) = prior_messages s @ [\<lparr> role = User, content = m \<rparr>]"
      "target_id E s \<in> set (map chat_id (chats s'))"
      "prior_messages s = [] \<longrightarrow>
         (\<exists>c. title_result E s m = Reply c \<and> session_title s' (target_id E s) = newTitle_of c)"
      "\<not> is_reply (create E (apiKey s) (model s) (spec_prompt s m))"
      "executeSend E m s =
         Resolved ((append_message (target_id E s)
             \<lparr> role = Assistant, content = errorMessageContent \<rparr> s')\<lparr> isLoading := False \<rparr>)
           (retrieval_events s m @
            (if prior_messages s = []
             then [CompletionsCreate (apiKey s) (js ''gpt-4o'') (title_request m)] else []) @
            CompletionsCreate (apiKey s) (model s) (spec_prompt s m) #
            ConsoleError (js ''Error calling OpenAI API:'') # speak E s errorMessageContent)"
  | (empty_reply) s' where
      "history s' (target_id E s) = prior_messages s @ [\<lparr> role = User, content = m \<rparr>]"
      "target_id E s \<in> set (map chat_id (chats s'))"
      "prior_messages s = [] \<longrightarrow>
         (\<exists>c. title_result E s m = Reply c \<and> session_title s' (target_id E s) = newTitle_of c)"
      "create E (apiKey s) (model s) (spec_prompt s m) = Reply None \<or>
       create E (apiKey s) (model s) (spec_prompt s m) = Reply (Some [])"
      "executeSend E m s =
         Resolved (s'\<lparr> isLoading := False \<rparr>)
           (retrieval_events s m @
            (if prior_messages s = []
             then [CompletionsCreate (apiKey s) (js ''gpt-4o'') (title_request m)] else []) @
            [CompletionsCreate (apiKey s) (model s) (spec_prompt s m)])"
  | (reply) s' t where
      "history s' (target_id E s) = prior_messages s @ [\<lparr> role = User, content = m \<rparr>]"
      "target_id E s \<in> set (map chat_id (chats s'))"
      "prior_messages s = [] \<longrightarrow>
         (\<exists>c. title_result E s m = Reply c \<and> session_title s' (target_id E s) = newTitle_of c)"
      "create E (apiKey s) (model s) (spec_prompt s m) = Reply (Some t)" "t \<noteq> []"
      "executeSend E m s =
         Resolved ((append_message (target_id E s) \<lparr> role = Assistant, content = t \<rparr> s')
             \<lparr> isLoading := False \<rparr>)
           (retrieval_events s m @
            (if prior_messages s = []
             then [CompletionsCreate (apiKey s) (js ''gpt-4o'') (title_request m)] else []) @
            CompletionsCreate (apiKey s) (model s) (spec_prompt s m) # speak E s t)"
proof (rule executeSend_reaches_try [OF assms, of E])
  fix tc s2
  assume c:
    "chat_id tc = target_id E s"
    "messages tc = prior_messages s @ [\<lparr> role = User, content = m \<rparr>]"
    "history s2 (target_id E s) = prior_messages s @ [\<lparr> role = User, content = m \<rparr>]"
    "target_id E s \<in> set (map chat_id (chats s2))"
    "apiKey s2 = apiKey s" "model s2 = model s" "isMuted s2 = isMuted s"
    and e: "executeSend E m s =
       (case try_block E m tc (spec_prompt s m) s2 of
          (threw, s3, ev1) \<Rightarrow>
            if threw
            then Resolved ((append_message (target_id E s)
                     \<lparr> role = Assistant, content = errorMessageContent \<rparr> s3)\<lparr> isLoading := False \<rparr>)
                   (retrieval_events s m @ ev1 @
                    ConsoleError (js ''Error calling OpenAI API:'') # speak E s3 errorMessageContent)
            else Resolved (s3\<lparr> isLoading := False \<rparr>) (retrieval_events s m @ ev1))"
  have first: "(length (messages tc) = 1) = (prior_messages s = [])"
    by (simp add: c(2))
  have tev: "title_events s2 m tc =
      (if prior_messages s = []
       then [CompletionsCreate (apiKey s) (js ''gpt-4o'') (title_request m)] else [])"
    by (simp add: title_events_def c(2) c(5))
  have tres: "title_result E s2 m = title_result E s m"
    by (simp add: title_result_def c(5))
  have sp: "\<And>x. speak E s2 x = speak E s x"
    by (simp add: speak_def c(7))
  show ?thesis
  proof (cases rule: try_block_cases [of tc E s2 m "spec_prompt s m"])
    case title_failed
    from title_failed(1) first have p: "prior_messages s = []" by simp
    show ?thesis
      by (rule that(1) [of s2])
        (use title_failed p c in \<open>simp_all add: e tev tres sp\<close>)
  next
    case (main_failed s')
    note o = title_step_observed [OF main_failed(1) c(1) c(4) c(5)]
    have sp': "\<And>x. speak E s' x = speak E s x"
      by (simp add: speak_def o(3) c(7))
    show ?thesis
      by (rule that(2) [of s'])
        (use main_failed o c first in \<open>simp_all add: e tev sp'\<close>)
  next
    case (empty_reply s')
    note o = title_step_observed [OF empty_reply(1) c(1) c(4) c(5)]
    show ?thesis
      by (rule that(3) [of s'])
        (use empty_reply o c first in \<open>simp_all add: e tev\<close>)
  next
    case (reply s' t)
    note o = title_step_observed [OF reply(1) c(1) c(4) c(5)]
    show ?thesis
      by (rule that(4) [of s' t])
        (use reply o c first in \<open>simp_all add: e tev sp\<close>)
  qed
qed

lemma history_finally: "history (s\<lparr> isLoading := b \<rparr>) t = history s t"
  by (simp add: history_def)

lemma session_title_finally: "session_title (s\<lparr> isLoading := b \<rparr>) t = session_title s t"
  by (simp add: session_title_def)

lemma retrieval_events_no_request:
  "CompletionsCreate k mo ms \<notin> set (retrieval_events s m)"
  "SpeechSpeak x \<notin> set (retrieval_events s m)" "SpeechCancel \<notin> set (retrieval_events s m)"
  "ConsoleError x \<notin> set (retrieval_events s m)"
  by (simp_all add: retrieval_events_def split: option.splits)

lemma speak_no_request: "CompletionsCreate k mo ms \<notin> set (speak E s x)"
  by (simp add: speak_def)

text \<open>
  C3. For every send whose main completion call fails (network error, API error,
  malformed response), the target session gains exactly one user message and exactly one
  assistant message whose content is the fixed text "Sorry, something went wrong."; the
  fallback text is passed to \<open>speak\<close> last, and is uttered unless speech is muted or
  unsupported; the in-flight flag returns to false and the call resolves.
\<close>

theorem executeSend_main_call_fails:
  assumes "trim m \<noteq> []" "\<not> isLoading s" "apiKey s \<noteq> []"
    and "retrieval_resolves s m" "target_resolves s"
    and "\<not> is_reply (create E (apiKey s) (model s) (spec_prompt s m))"
  shows "history (final (executeSend E m s)) (target_id E s) =
           prior_messages s @ [\<lparr> role = User, content = m \<rparr>,
             \<lparr> role = Assistant, content = js ''Sorry, something went wrong.'' \<rparr>] \<and>
         (\<exists>ev. trace (executeSend E m s) =
            ev @ speak E s (js ''Sorry, something went wrong.'')) \<and>
         (isMuted s \<or> SpeechSpeak (js ''Sorry, something went wrong.'') \<in> set (trace (executeSend E m s))
            \<or> \<not> speechSynthesis E) \<and>
         \<not> isLoading (final (executeSend E m s)) \<and>
         (\<exists>s' ev. executeSend E m s = Resolved s' ev)"
  using assms(1-5)
proof (cases rule: executeSend_outcomes [where E = E])
  case (title_failed s2)
  have h: "history (final (executeSend E m s)) (target_id E s) =
      history s2 (target_id E s) @ [\<lparr> role = Assistant, content = errorMessageContent \<rparr>]"
    by (simp add: title_failed(5) history_finally history_append_message [OF title_failed(4)])
  have t: "\<exists>ev. trace (executeSend E m s) = ev @ speak E s errorMessageContent"
    by (simp add: title_failed(5))
  from h t title_failed show ?thesis
    by (auto simp: errorMessageContent_def speak_def)
next
  case (main_failed s')
  have h: "history (final (executeSend E m s)) (target_id E s) =
      history s' (target_id E s) @ [\<lparr> role = Assistant, content = errorMessageContent \<rparr>]"
    by (simp add: main_failed(5) history_finally history_append_message [OF main_failed(2)])
  have "trace (executeSend E m s) = (retrieval_events s m @
            (if prior_messages s = []
             then [CompletionsCreate (apiKey s) (js ''gpt-4o'') (title_request m)] else []) @
            [CompletionsCreate (apiKey s) (model s) (spec_prompt s m),
            ConsoleError (js ''Error calling OpenAI API:'')]) @ speak E s errorMessageContent"
    by (simp add: main_failed(5))
  then have t: "\<exists>ev. trace (executeSend E m s) = ev @ speak E s errorMessageContent"
    by blast
  from h t main_failed show ?thesis
    by (auto simp: errorMessageContent_def speak_def)
next
  case (empty_reply s')
  with assms(6) show ?thesis by (auto simp: is_reply_def)
next
  case (reply s' t)
  with assms(6) show ?thesis by (simp add: is_reply_def)
qed

lemma demo_app_facts:
  "trim (js ''hi'') \<noteq> []" "\<not> isLoading demo_app" "apiKey demo_app \<noteq> []"
  "retrieval_resolves demo_app m" "target_resolves demo_app"
  "prior_messages demo_app = []" "target_id E demo_app = js ''1''"
  "isMuted demo_app = False" "retrieval_events demo_app m = []" "context_of demo_app m = []"
  "apiKey demo_app = js ''k''" "model demo_app = js ''gpt-4o''"
  by (simp_all add: trim_def js_def isWhiteSpace_def demo_app_def handleNewChat_def initialApp_def
      retrieval_resolves_def target_resolves_def prior_messages_def target_id_def history_def
      retrieval_events_def context_of_def)

lemma demo_env_facts:
  "create (demo_env a b) k mo (spec_prompt s m) = b"
  "title_result (demo_env a b) s m = a"
  "speechSynthesis (demo_env a b) = True"
  by (simp_all add: demo_env_def spec_prompt_def title_result_def title_request_def)

theorem executeSend_main_call_fails_witness:
  "\<not> is_reply ApiError \<and>
   history (final (executeSend (demo_env (Reply None) ApiError) (js ''hi'') demo_app)) (js ''1'') =
     [\<lparr> role = User, content = js ''hi'' \<rparr>,
      \<lparr> role = Assistant, content = js ''Sorry, something went wrong.'' \<rparr>] \<and>
   SpeechSpeak (js ''Sorry, something went wrong.'')
     \<in> set (trace (executeSend (demo_env (Reply None) ApiError) (js ''hi'') demo_app)) \<and>
   \<not> isLoading (final (executeSend (demo_env (Reply None) ApiError) (js ''hi'') demo_app))"
proof -
  have h: "\<not> is_reply (create (demo_env (Reply None) ApiError) (apiKey demo_app) (model demo_app)
      (spec_prompt demo_app (js ''hi'')))"
    by (simp add: demo_env_facts is_reply_def)
  from executeSend_main_call_fails [OF demo_app_facts(1-5) h]
  show ?thesis
    by (simp add: demo_app_facts demo_env_facts is_reply_def)
qed

text \<open>
  C10. For every send whose main completion call succeeds with null or empty content, no
  assistant message is appended (the target session gains only the user message), the
  trace holds the retriever query and the completion requests only (nothing is spoken, no
  error is logged, no fallback is produced), and the in-flight flag returns to false.
\<close>

theorem executeSend_empty_reply:
  assumes "trim m \<noteq> []" "\<not> isLoading s" "apiKey s \<noteq> []"
    and "retrieval_resolves s m" "target_resolves s"
    and "prior_messages s \<noteq> [] \<or> is_reply (title_result E s m)"
    and "create E (apiKey s) (model s) (spec_prompt s m) = Reply None \<or>
         create E (apiKey s) (model s) (spec_prompt s m) = Reply (Some [])"
  shows "history (final (executeSend E m s)) (target_id E s) =
           prior_messages s @ [\<lparr> role = User, content = m \<rparr>] \<and>
         trace (executeSend E m s) =
           retrieval_events s m @
           (if prior_messages s = []
            then [CompletionsCreate (apiKey s) (js ''gpt-4o'') (title_request m)] else []) @
           [CompletionsCreate (apiKey s) (model s) (spec_prompt s m)] \<and>
         (\<forall>x. SpeechSpeak x \<notin> set (trace (executeSend E m s)) \<and>
              ConsoleError x \<notin> set (trace (executeSend E m s))) \<and>
         \<not> isLoading (final (executeSend E m s)) \<and>
         (\<exists>s' ev. executeSend E m s = Resolved s' ev)"
  using assms(1-5)
proof (cases rule: executeSend_outcomes [where E = E])
  case (title_failed s2)
  with assms(6) show ?thesis by simp
next
  case (main_failed s')
  with assms(7) show ?thesis by (auto simp: is_reply_def)
next
  case (empty_reply s')
  have h: "history (final (executeSend E m s)) (target_id E s) =
      prior_messages s @ [\<lparr> role = User, content = m \<rparr>]"
    by (simp add: empty_reply(5) history_finally empty_reply(1))
  have t: "trace (executeSend E m s) =
           retrieval_events s m @
           (if prior_messages s = []
            then [CompletionsCreate (apiKey s) (js ''gpt-4o'') (title_request m)] else []) @
           [CompletionsCreate (apiKey s) (model s) (spec_prompt s m)]"
    by (simp add: empty_reply(5))
  have n: "\<forall>x. SpeechSpeak x \<notin> set (trace (executeSend E m s)) \<and>
              ConsoleError x \<notin> set (trace (executeSend E m s))"
    unfolding t by (simp add: retrieval_events_no_request)
  have l: "\<not> isLoading (final (executeSend E m s))" "\<exists>s' ev. executeSend E m s = Resolved s' ev"
    by (simp_all add: empty_reply(5))
  from h t n l show ?thesis by blast
next
  case (reply s' t)
  with assms(7) show ?thesis by simp
qed

theorem executeSend_empty_reply_witness:
  "history (final (executeSend (demo_env (Reply (Some (js ''T''))) (Reply None)) (js ''hi'') demo_app))
     (js ''1'') = [\<lparr> role = User, content = js ''hi'' \<rparr>] \<and>
   trace (executeSend (demo_env (Reply (Some (js ''T''))) (Reply None)) (js ''hi'') demo_app) =
     [CompletionsCreate (js ''k'') (js ''gpt-4o'') (title_request (js ''hi'')),
      CompletionsCreate (js ''k'') (js ''gpt-4o'') (spec_prompt demo_app (js ''hi''))] \<and>
   \<not> isLoading (final (executeSend (demo_env (Reply (Some (js ''T''))) (Reply None)) (js ''hi'') demo_app))"
proof -
  have h6: "prior_messages demo_app \<noteq> [] \<or>
      is_reply (title_result (demo_env (Reply (Some (js ''T''))) (Reply None)) demo_app (js ''hi''))"
    by (simp add: demo_env_facts is_reply_def)
  have h7: "create (demo_env (Reply (Some (js ''T''))) (Reply None)) (apiKey demo_app) (model demo_app)
        (spec_prompt demo_app (js ''hi'')) = Reply None \<or>
      create (demo_env (Reply (Some (js ''T''))) (Reply None)) (apiKey demo_app) (model demo_app)
        (spec_prompt demo_app (js ''hi'')) = Reply (Some [])"
    by (simp add: demo_env_facts)
  from executeSend_empty_reply [OF demo_app_facts(1-5) h6 h7]
  show ?thesis
    by (simp add: demo_app_facts)
qed

lemma executeSend_retrieval_rejects:
  assumes "trim m \<noteq> []" "\<not> isLoading s" "apiKey s \<noteq> []" "\<not> retrieval_resolves s m"
  shows "executeSend E m s =
     Rejected RetrievalError (s\<lparr> input := [], isLoading := True \<rparr>) [GetRelevantDocuments m]"
  using assms
  by (simp add: executeSend_def executeSend_body_def retrieve_context_def retrieval_resolves_def
      split: option.splits retrieval.splits)

lemma find_Some_mem: "find P xs = Some x \<Longrightarrow> x \<in> set xs \<and> P x"
  by (induction xs) (auto split: if_splits)

lemma resolve_target_fails:
  "\<not> target_resolves s \<Longrightarrow> resolve_target E u s = Inl TypeError"
  by (auto simp: target_resolves_def resolve_target_def Let_def
      split: option.splits dest!: find_Some_mem)

lemma executeSend_target_unresolved:
  assumes "trim m \<noteq> []" "\<not> isLoading s" "apiKey s \<noteq> []" "retrieval_resolves s m"
    "\<not> target_resolves s"
  shows "executeSend E m s =
     Rejected TypeError (s\<lparr> input := [], isLoading := True \<rparr>) (retrieval_events s m)"
proof -
  have a: "retrieval_resolves (s\<lparr> input := [], isLoading := True \<rparr>) m"
    and b: "\<not> target_resolves (s\<lparr> input := [], isLoading := True \<rparr>)"
    using assms(4,5) by (simp_all add: loading_frame)
  show ?thesis
    using assms(1-3)
    by (simp add: executeSend_def executeSend_body_def retrieve_context_ok [OF a]
        resolve_target_fails [OF b] loading_frame)
qed

lemma spec_prompt_not_title: "spec_prompt s m \<noteq> title_request m'"
  by (simp add: spec_prompt_def title_request_def)

lemma join_separator:
  "join separator (d # ds) = d @ concat (map (\<lambda>x. 10 # 10 # 45 # 45 # 45 # 10 # 10 # x) ds)"
  by (induction ds arbitrary: d) (simp_all add: separator_def)

text \<open>
  C6. For every send that passes its guards, every completion request it issues is either
  the title request of a first exchange or the main request, whose messages are one system
  message followed by the target session's history in order and the just-appended user
  message; the main request is issued whenever the retriever and the target resolve and the
  title step does not throw. When a retriever is set and the retrieved chunks, taken in
  rank order with two line feeds, three hyphens and two line feeds between neighbours, give
  a non-empty text, the system message is the line "Based on the following context, answer
  the user's question.", an empty line, "Context:", a line feed and that text. Otherwise
  it is the fixed persona instruction "You are a helpful digital consciousness named Olly
  that has been created by Zachary Kulik as a demo for the company Olivia.".
\<close>

theorem executeSend_prompt:
  assumes "trim m \<noteq> []" "\<not> isLoading s" "apiKey s \<noteq> []"
  shows "(\<forall>k mo ms. CompletionsCreate k mo ms \<in> set (trace (executeSend E m s)) \<longrightarrow>
            k = apiKey s \<and>
            (mo = js ''gpt-4o'' \<and> ms = title_request m \<and> prior_messages s = [] \<or>
             mo = model s \<and> ms = spec_prompt s m)) \<and>
         (retrieval_resolves s m \<and> target_resolves s \<and>
          (prior_messages s = [] \<longrightarrow> is_reply (title_result E s m)) \<longrightarrow>
            CompletionsCreate (apiKey s) (model s) (spec_prompt s m)
              \<in> set (trace (executeSend E m s))) \<and>
         (\<exists>sys. spec_prompt s m = sys # prior_messages s @ [\<lparr> role = User, content = m \<rparr>] \<and>
            role sys = System \<and>
            content sys =
              (case ragRetriever s of
                 None \<Rightarrow> js (''You are a helpful digital consciousness named Olly that has '' @
                    ''been created by Zachary Kulik as a demo for the company Olivia.'')
               | Some retriever \<Rightarrow>
                   (case retriever m of
                      RetrievalRejected \<Rightarrow> js (''You are a helpful digital consciousness named Olly that has '' @
                    ''been created by Zachary Kulik as a demo for the company Olivia.'')
                    | Docs relevantDocs \<Rightarrow>
                        (case relevantDocs of
                           [] \<Rightarrow> js (''You are a helpful digital consciousness named Olly that has '' @
                    ''been created by Zachary Kulik as a demo for the company Olivia.'')
                         | d # ds \<Rightarrow>
                             if d @ concat (map (\<lambda>x. 10 # 10 # 45 # 45 # 45 # 10 # 10 # x) ds) \<noteq> []
                             then js ''Based on the following context, answer the user'' @ [39] @
                    js ''s question.'' @ [10, 10] @ js ''Context:'' @ [10] @
                               d @ concat (map (\<lambda>x. 10 # 10 # 45 # 45 # 45 # 10 # 10 # x) ds)
                             else js (''You are a helpful digital consciousness named Olly that has '' @
                    ''been created by Zachary Kulik as a demo for the company Olivia.'')))))"
proof -
  have third: "\<exists>sys. spec_prompt s m = sys # prior_messages s @ [\<lparr> role = User, content = m \<rparr>] \<and>
            role sys = System \<and>
            content sys =
              (case ragRetriever s of
                 None \<Rightarrow> js (''You are a helpful digital consciousness named Olly that has '' @
                    ''been created by Zachary Kulik as a demo for the company Olivia.'')
               | Some retriever \<Rightarrow>
                   (case retriever m of
                      RetrievalRejected \<Rightarrow> js (''You are a helpful digital consciousness named Olly that has '' @
                    ''been created by Zachary Kulik as a demo for the company Olivia.'')
                    | Docs relevantDocs \<Rightarrow>
                        (case relevantDocs of
                           [] \<Rightarrow> js (''You are a helpful digital consciousness named Olly that has '' @
                    ''been created by Zachary Kulik as a demo for the company Olivia.'')
                         | d # ds \<Rightarrow>
                             if d @ concat (map (\<lambda>x. 10 # 10 # 45 # 45 # 45 # 10 # 10 # x) ds) \<noteq> []
                             then js ''Based on the following context, answer the user'' @ [39] @
                    js ''s question.'' @ [10, 10] @ js ''Context:'' @ [10] @
                               d @ concat (map (\<lambda>x. 10 # 10 # 45 # 45 # 45 # 10 # 10 # x) ds)
                             else js (''You are a helpful digital consciousness named Olly that has '' @
                    ''been created by Zachary Kulik as a demo for the company Olivia.''))))"
    by (simp add: spec_prompt_def context_of_def join_separator systemPrompt_def
        contextInstruction_def split: option.splits retrieval.splits list.splits)
  have "(\<forall>k mo ms. CompletionsCreate k mo ms \<in> set (trace (executeSend E m s)) \<longrightarrow>
            k = apiKey s \<and>
            (mo = js ''gpt-4o'' \<and> ms = title_request m \<and> prior_messages s = [] \<or>
             mo = model s \<and> ms = spec_prompt s m)) \<and>
         (retrieval_resolves s m \<and> target_resolves s \<and>
          (prior_messages s = [] \<longrightarrow> is_reply (title_result E s m)) \<longrightarrow>
            CompletionsCreate (apiKey s) (model s) (spec_prompt s m)
              \<in> set (trace (executeSend E m s)))"
  proof (cases "retrieval_resolves s m")
    case False
    from executeSend_retrieval_rejects [OF assms False, of E] False show ?thesis by simp
  next
    case rr: True
    show ?thesis
    proof (cases "target_resolves s")
      case False
      from executeSend_target_unresolved [OF assms rr False, of E] False show ?thesis
        by (simp add: retrieval_events_no_request)
    next
      case tr: True
      from assms rr tr show ?thesis
      proof (cases rule: executeSend_outcomes [where E = E])
        case (title_failed s2)
        then show ?thesis
          by (simp add: retrieval_events_no_request speak_no_request)
      next
        case (main_failed s')
        then show ?thesis
          by (auto simp: retrieval_events_no_request speak_no_request)
      next
        case (empty_reply s')
        then show ?thesis
          by (auto simp: retrieval_events_no_request speak_no_request)
      next
        case (reply s' t)
        then show ?thesis
          by (auto simp: retrieval_events_no_request speak_no_request)
      qed
    qed
  qed
  with third show ?thesis by blast
qed

theorem executeSend_prompt_witness:
  "CompletionsCreate (js ''k'') (js ''gpt-4o'')
     [\<lparr> role = System,
        content = js ''Based on the following context, answer the user'' @ [39] @
          js ''s question.'' @ [10, 10] @ js ''Context:'' @ [10] @
          js ''A'' @ [10, 10, 45, 45, 45, 10, 10] @ js ''B'' @ [10, 10, 45, 45, 45, 10, 10] @ js ''C'' \<rparr>,
      \<lparr> role = User, content = js ''hi'' \<rparr>, \<lparr> role = Assistant, content = js ''yo'' \<rparr>,
      \<lparr> role = User, content = js ''more'' \<rparr>]
   \<in> set (trace (executeSend (demo_env (Reply None) (Reply (Some (js ''ok'')))) (js ''more'')
        (demo_app_talked\<lparr> ragRetriever := Some (\<lambda>q. Docs [js ''A'', js ''B'', js ''C'']) \<rparr>))) \<and>
   CompletionsCreate (js ''k'') (js ''gpt-4o'')
     [\<lparr> role = System,
        content = js (''You are a helpful digital consciousness named Olly that has '' @
          ''been created by Zachary Kulik as a demo for the company Olivia.'') \<rparr>,
      \<lparr> role = User, content = js ''hi'' \<rparr>]
   \<in> set (trace (executeSend (demo_env (Reply None) (Reply (Some (js ''ok'')))) (js ''hi'')
        demo_app))"
proof -
  let ?s = "demo_app_talked\<lparr> ragRetriever := Some (\<lambda>q. Docs [js ''A'', js ''B'', js ''C'']) \<rparr>"
  let ?E = "demo_env (Reply None) (Reply (Some (js ''ok'')))"
  have pre: "trim (js ''more'') \<noteq> []" "\<not> isLoading ?s" "apiKey ?s \<noteq> []"
    by (simp_all add: trim_def js_def isWhiteSpace_def demo_app_talked_def initialApp_def)
  have res: "retrieval_resolves ?s (js ''more'')" "target_resolves ?s"
    "prior_messages ?s \<noteq> []"
    by (simp_all add: retrieval_resolves_def target_resolves_def prior_messages_def history_def
        demo_app_talked_def initialApp_def js_def)
  have p: "spec_prompt ?s (js ''more'') =
     [\<lparr> role = System,
        content = js ''Based on the following context, answer the user'' @ [39] @
          js ''s question.'' @ [10, 10] @ js ''Context:'' @ [10] @
          js ''A'' @ [10, 10, 45, 45, 45, 10, 10] @ js ''B'' @ [10, 10, 45, 45, 45, 10, 10] @ js ''C'' \<rparr>,
      \<lparr> role = User, content = js ''hi'' \<rparr>, \<lparr> role = Assistant, content = js ''yo'' \<rparr>,
      \<lparr> role = User, content = js ''more'' \<rparr>]"
    by (simp add: spec_prompt_def context_of_def prior_messages_def history_def
        demo_app_talked_def initialApp_def js_def separator_def contextInstruction_def)
  have k: "apiKey ?s = js ''k''" "model ?s = js ''gpt-4o''"
    by (simp_all add: demo_app_talked_def initialApp_def)
  from executeSend_prompt [OF pre, of ?E] res
  have first: "CompletionsCreate (apiKey ?s) (model ?s) (spec_prompt ?s (js ''more''))
      \<in> set (trace (executeSend ?E (js ''more'') ?s))"
    by blast
  have p0: "spec_prompt demo_app (js ''hi'') =
     [\<lparr> role = System,
        content = js (''You are a helpful digital consciousness named Olly that has '' @
          ''been created by Zachary Kulik as a demo for the company Olivia.'') \<rparr>,
      \<lparr> role = User, content = js ''hi'' \<rparr>]"
    by (simp add: spec_prompt_def demo_app_facts systemPrompt_def)
  have t0: "prior_messages demo_app = [] \<longrightarrow> is_reply (title_result ?E demo_app (js ''hi''))"
    by (simp add: demo_env_facts is_reply_def)
  from executeSend_prompt [OF demo_app_facts(1-3), of ?E] demo_app_facts(4,5) t0
  have second: "CompletionsCreate (apiKey demo_app) (model demo_app) (spec_prompt demo_app (js ''hi''))
      \<in> set (trace (executeSend ?E (js ''hi'') demo_app))"
    by blast
  from first second show ?thesis
    unfolding p p0 k demo_app_facts(11,12) by blast
qed

lemma newTitle_of_no_quotes: "34 \<notin> set (newTitle_of c) \<and> 39 \<notin> set (newTitle_of c)"
  by (cases c) (auto simp: newTitle_of_def js_def Let_def)

text \<open>
  C1 (as the code has it). On every first exchange (no prior message in the target
  session) that reaches the try block, send issues the title request (model gpt-4o, one
  user message holding the title prompt) before any other request. When it is answered,
  the session is renamed to the answer with every double and single quote removed ("Chat"
  when the content is null or nothing is left) and the main request is issued. When it
  fails, the main request is not issued: the error is logged, the fallback is spoken and
  appended as the assistant's turn, and the in-flight flag is cleared.
\<close>

theorem executeSend_title_step:
  assumes "trim m \<noteq> []" "\<not> isLoading s" "apiKey s \<noteq> []"
    and "retrieval_resolves s m" "target_resolves s"
    and "prior_messages s = []"
  shows "(\<exists>ev. trace (executeSend E m s) =
            retrieval_events s m @
            CompletionsCreate (apiKey s) (js ''gpt-4o'')
              [\<lparr> role = User, content = titlePrompt m \<rparr>] # ev) \<and>
         (\<forall>c. title_result E s m = Reply c \<longrightarrow>
            session_title (final (executeSend E m s)) (target_id E s) = newTitle_of c \<and>
            34 \<notin> set (newTitle_of c) \<and> 39 \<notin> set (newTitle_of c) \<and>
            CompletionsCreate (apiKey s) (model s) (spec_prompt s m)
              \<in> set (trace (executeSend E m s))) \<and>
         (\<not> is_reply (title_result E s m) \<longrightarrow>
            trace (executeSend E m s) =
              retrieval_events s m @
              [CompletionsCreate (apiKey s) (js ''gpt-4o'') [\<lparr> role = User, content = titlePrompt m \<rparr>],
               ConsoleError (js ''Error calling OpenAI API:'')] @
              speak E s (js ''Sorry, something went wrong.'') \<and>
            history (final (executeSend E m s)) (target_id E s) =
              [\<lparr> role = User, content = m \<rparr>,
               \<lparr> role = Assistant, content = js ''Sorry, something went wrong.'' \<rparr>] \<and>
            \<not> isLoading (final (executeSend E m s)))"
  using assms(1-5)
proof (cases rule: executeSend_outcomes [where E = E])
  case (title_failed s2)
  have h: "history (final (executeSend E m s)) (target_id E s) =
      history s2 (target_id E s) @ [\<lparr> role = Assistant, content = errorMessageContent \<rparr>]"
    by (simp add: title_failed(5) history_finally history_append_message [OF title_failed(4)])
  from title_failed(2) have nr: "\<And>c. title_result E s m \<noteq> Reply c"
    by (auto simp: is_reply_def)
  from h title_failed(3) nr show ?thesis
    by (simp add: title_failed(5) title_request_def errorMessageContent_def)
next
  case (main_failed s')
  from main_failed(3) assms(6) obtain c where c: "title_result E s m = Reply c"
    "session_title s' (target_id E s) = newTitle_of c" by blast
  then have r: "is_reply (title_result E s m)" by (simp add: is_reply_def)
  from c r show ?thesis
    by (simp add: main_failed(5) assms(6) title_request_def session_title_finally
        session_title_append_message newTitle_of_no_quotes)
next
  case (empty_reply s')
  from empty_reply(3) assms(6) obtain c where c: "title_result E s m = Reply c"
    "session_title s' (target_id E s) = newTitle_of c" by blast
  then have r: "is_reply (title_result E s m)" by (simp add: is_reply_def)
  from c r show ?thesis
    by (simp add: empty_reply(5) assms(6) title_request_def session_title_finally
        session_title_append_message newTitle_of_no_quotes)
next
  case (reply s' t)
  from reply(3) assms(6) obtain c where c: "title_result E s m = Reply c"
    "session_title s' (target_id E s) = newTitle_of c" by blast
  then have r: "is_reply (title_result E s m)" by (simp add: is_reply_def)
  from c r show ?thesis
    by (simp add: reply(6) assms(6) title_request_def session_title_finally
        session_title_append_message newTitle_of_no_quotes)
qed

theorem executeSend_title_step_witness:
  "session_title (final (executeSend (demo_env (Reply (Some (34 # js ''Bob'' @ 39 # js ''s Day'' @ [34])))
       (Reply (Some (js ''yo'')))) (js ''hi'') demo_app)) (js ''1'') = js ''Bobs Day'' \<and>
   CompletionsCreate (js ''k'') (js ''gpt-4o'') (spec_prompt demo_app (js ''hi''))
     \<in> set (trace (executeSend (demo_env (Reply (Some (34 # js ''Bob'' @ 39 # js ''s Day'' @ [34])))
       (Reply (Some (js ''yo'')))) (js ''hi'') demo_app)) \<and>
   \<not> isLoading (final (executeSend (demo_env ApiError (Reply (Some (js ''yo'')))) (js ''hi'') demo_app))"
proof -
  have n: "newTitle_of (Some (34 # js ''Bob'' @ 39 # js ''s Day'' @ [34])) = js ''Bobs Day''"
    by (simp add: newTitle_of_def js_def)
  from executeSend_title_step [OF demo_app_facts(1-6),
      of "demo_env (Reply (Some (34 # js ''Bob'' @ 39 # js ''s Day'' @ [34]))) (Reply (Some (js ''yo'')))"]
    executeSend_title_step [OF demo_app_facts(1-6), of "demo_env ApiError (Reply (Some (js ''yo'')))"]
  show ?thesis
    by (simp add: demo_env_facts demo_app_facts n is_reply_def)
qed

theorem title_failure_aborts_main_counterexample:
  "trace (executeSend (demo_env NetworkError (Reply (Some (js ''yo'')))) (js ''hi'') demo_app) =
     [CompletionsCreate (js ''k'') (js ''gpt-4o'') (title_request (js ''hi'')),
      ConsoleError (js ''Error calling OpenAI API:''),
      SpeechCancel, SpeechSpeak (js ''Sorry, something went wrong.'')] \<and>
   CompletionsCreate (js ''k'') (js ''gpt-4o'') (spec_prompt demo_app (js ''hi''))
     \<notin> set (trace (executeSend (demo_env NetworkError (Reply (Some (js ''yo'')))) (js ''hi'') demo_app)) \<and>
   history (final (executeSend (demo_env NetworkError (Reply (Some (js ''yo'')))) (js ''hi'') demo_app))
     (js ''1'') =
     [\<lparr> role = User, content = js ''hi'' \<rparr>,
      \<lparr> role = Assistant, content = js ''Sorry, something went wrong.'' \<rparr>] \<and>
   newTitle_of (Some (34 # js ''Bob'' @ 39 # js ''s Day'' @ [34])) = js ''Bobs Day''"
proof -
  let ?E = "demo_env NetworkError (Reply (Some (js ''yo'')))"
  have n: "newTitle_of (Some (34 # js ''Bob'' @ 39 # js ''s Day'' @ [34])) = js ''Bobs Day''"
    by (simp add: newTitle_of_def js_def)
  have t: "title_result ?E demo_app (js ''hi'') = NetworkError"
    by (rule demo_env_facts)
  have "trace (executeSend ?E (js ''hi'') demo_app) =
     [CompletionsCreate (js ''k'') (js ''gpt-4o'') (title_request (js ''hi'')),
      ConsoleError (js ''Error calling OpenAI API:''),
      SpeechCancel, SpeechSpeak (js ''Sorry, something went wrong.'')] \<and>
   history (final (executeSend ?E (js ''hi'') demo_app)) (js ''1'') =
     [\<lparr> role = User, content = js ''hi'' \<rparr>,
      \<lparr> role = Assistant, content = js ''Sorry, something went wrong.'' \<rparr>]"
    using demo_app_facts(1-5)
  proof (cases rule: executeSend_outcomes [where E = ?E])
    case (title_failed s2)
    have "history (final (executeSend ?E (js ''hi'') demo_app)) (target_id ?E demo_app) =
      history s2 (target_id ?E demo_app) @ [\<lparr> role = Assistant, content = errorMessageContent \<rparr>]"
      by (simp add: title_failed(5) history_finally history_append_message [OF title_failed(4)])
    with title_failed(3) show ?thesis
      by (simp add: title_failed(5) demo_app_facts demo_env_facts speak_def errorMessageContent_def)
  next
    case (main_failed s')
    with t show ?thesis by (simp add: demo_app_facts)
  next
    case (empty_reply s')
    with t show ?thesis by (simp add: demo_app_facts)
  next
    case (reply s' x)
    with t show ?thesis by (simp add: demo_app_facts)
  qed
  moreover have "spec_prompt demo_app (js ''hi'') \<noteq> title_request (js ''hi'')"
    by (rule spec_prompt_not_title)
  ultimately show ?thesis using n by simp
qed

lemma trim_blank: "(trim m = []) = list_all isWhiteSpace m"
proof
  assume "trim m = []"
  then have a: "\<forall>x \<in> set (dropWhile isWhiteSpace m). isWhiteSpace x"
    by (simp add: trim_def dropWhile_eq_Nil_conv)
  have "dropWhile isWhiteSpace m = []"
  proof (rule ccontr)
    assume ne: "dropWhile isWhiteSpace m \<noteq> []"
    then have "\<not> isWhiteSpace (hd (dropWhile isWhiteSpace m))" by (rule hd_dropWhile)
    moreover from ne have "hd (dropWhile isWhiteSpace m) \<in> set (dropWhile isWhiteSpace m)"
      by (rule hd_in_set)
    ultimately show False using a by blast
  qed
  then show "list_all isWhiteSpace m"
    by (simp add: dropWhile_eq_Nil_conv list_all_iff)
next
  assume "list_all isWhiteSpace m"
  then have e: "dropWhile isWhiteSpace m = []"
    by (simp add: dropWhile_eq_Nil_conv list_all_iff)
  show "trim m = []" unfolding trim_def e by simp
qed

text \<open>
  C4 (as the code has it). A send with blank text (empty or white space only) or while a
  request is in flight is a silent no-op: the state is unchanged and nothing is issued. A
  send with non-blank text, no request in flight and a missing API credential is rejected
  with the alert alone, before any network call, the state unchanged.
\<close>

theorem executeSend_guards:
  "(trim m = [] \<or> isLoading s \<longrightarrow> executeSend E m s = Resolved s []) \<and>
   (trim m \<noteq> [] \<and> \<not> isLoading s \<and> apiKey s = [] \<longrightarrow>
      executeSend E m s = Resolved s [Alert (js ''Please enter your OpenAI API key.'')]) \<and>
   (trim m = []) = list_all isWhiteSpace m"
  using trim_blank [of m] by (simp add: executeSend_def)

theorem executeSend_guards_witness:
  "executeSend (demo_env ApiError ApiError) [32, 9] demo_app = Resolved demo_app [] \<and>
   executeSend (demo_env ApiError ApiError) (js ''hi'') (demo_app\<lparr> isLoading := True \<rparr>)
     = Resolved (demo_app\<lparr> isLoading := True \<rparr>) [] \<and>
   executeSend (demo_env ApiError ApiError) (js ''hi'') (initialApp [])
     = Resolved (initialApp []) [Alert (js ''Please enter your OpenAI API key.'')]"
proof -
  have a: "trim [32, 9] = []" by (simp add: trim_def isWhiteSpace_def)
  have b: "isLoading (demo_app\<lparr> isLoading := True \<rparr>)" by simp
  have c: "trim (js ''hi'') \<noteq> [] \<and> \<not> isLoading (initialApp []) \<and> apiKey (initialApp []) = []"
    by (simp add: demo_app_facts initialApp_def)
  from executeSend_guards [of "[32, 9]" demo_app "demo_env ApiError ApiError"]
    executeSend_guards [of "js ''hi''" "demo_app\<lparr> isLoading := True \<rparr>" "demo_env ApiError ApiError"]
    executeSend_guards [of "js ''hi''" "initialApp []" "demo_env ApiError ApiError"]
    a b c
  show ?thesis by blast
qed

theorem missing_key_blank_text_counterexample:
  "apiKey (initialApp []) = [] \<and>
   executeSend (demo_env ApiError ApiError) [] (initialApp []) = Resolved (initialApp []) [] \<and>
   executeSend (demo_env ApiError ApiError) (js ''hi'') ((initialApp [])\<lparr> isLoading := True \<rparr>)
     = Resolved ((initialApp [])\<lparr> isLoading := True \<rparr>) []"
  by (simp add: executeSend_def trim_def initialApp_def)

section \<open>Voice input: proofs\<close>

lemma set_voice_twice: "set_voice i' v' n' (set_voice i v n s) = set_voice i' v' n' s"
  by (simp add: set_voice_def)

lemma retrieve_context_frame:
  "retrieve_context (set_voice i v n s) m = retrieve_context s m"
  by (simp add: retrieve_context_def set_voice_def)

lemma resolve_target_frame:
  "resolve_target E u (set_voice i v n s) =
     (case resolve_target E u s of Inl e \<Rightarrow> Inl e | Inr (tc, s') \<Rightarrow> Inr (tc, set_voice i v n s'))"
  by (simp add: resolve_target_def set_voice_def Let_def split: option.splits)

lemma rename_chat_frame:
  "rename_chat t x (set_voice i v n s) = set_voice i v n (rename_chat t x s)"
  by (simp add: rename_chat_def set_voice_def)

lemma append_message_frame:
  "append_message t x (set_voice i v n s) = set_voice i v n (append_message t x s)"
  by (simp add: append_message_def set_voice_def)

lemma speak_frame: "speak E (set_voice i v n s) t = speak E s t"
  by (simp add: speak_def set_voice_def)

lemma set_voice_fields:
  "apiKey (set_voice i v n s) = apiKey s" "model (set_voice i v n s) = model s"
  "isLoading (set_voice i v n s) = isLoading s" "chats (set_voice i v n s) = chats s"
  "activeChatId (set_voice i v n s) = activeChatId s"
  by (simp_all add: set_voice_def)

lemma generate_title_frame:
  "generate_title E m tc (set_voice i v n s) =
     apsnd (apfst (set_voice i v n)) (generate_title E m tc s)"
  unfolding generate_title_def Let_def set_voice_fields rename_chat_frame
  by (simp split: api_result.splits)

lemma bot_response_frame:
  "bot_response E tc ms (set_voice i v n s) =
     apsnd (apfst (set_voice i v n)) (bot_response E tc ms s)"
  unfolding bot_response_def Let_def set_voice_fields append_message_frame speak_frame
  by (simp split: api_result.splits option.splits)

lemma try_block_frame:
  "try_block E m tc ms (set_voice i v n s) =
     apsnd (apfst (set_voice i v n)) (try_block E m tc ms s)"
proof (cases "generate_title E m tc s")
  case (fields threw s1 ev1)
  show ?thesis
  proof (cases "bot_response E tc ms s1")
    case b: (fields threw' s2' ev2)
    show ?thesis
      unfolding try_block_def generate_title_frame
      by (simp add: fields bot_response_frame b)
  qed
qed

lemma catch_block_frame:
  "catch_block E tc (set_voice i v n s) = apfst (set_voice i v n) (catch_block E tc s)"
  by (simp add: catch_block_def append_message_frame speak_frame)

lemma set_voice_loading:
  "(set_voice i v n s)\<lparr> isLoading := b \<rparr> = set_voice i v n (s\<lparr> isLoading := b \<rparr>)"
  by (simp add: set_voice_def)

lemma executeSend_body_frame:
  "executeSend_body E m (set_voice i v n s) = map_final (set_voice i v n) (executeSend_body E m s)"
proof (cases "retrieve_context s m")
  case (Pair ev0 ctx)
  show ?thesis
  proof (cases ctx)
    case None
    with Pair show ?thesis
      by (simp add: executeSend_body_def retrieve_context_frame map_final_def)
  next
    case (Some c)
    show ?thesis
    proof (cases "resolve_target E \<lparr> role = User, content = m \<rparr> s")
      case (Inl e)
      with Pair Some show ?thesis
        by (simp add: executeSend_body_def retrieve_context_frame resolve_target_frame map_final_def)
    next
      case (Inr p)
      obtain tc s2 where p: "p = (tc, s2)" by (cases p)
      obtain threw s3 ev1 where t: "try_block E m tc (system_message c # messages tc) s2 = (threw, s3, ev1)"
        by (cases "try_block E m tc (system_message c # messages tc) s2")
      obtain s4 ev2 where k: "catch_block E tc s3 = (s4, ev2)"
        by (cases "catch_block E tc s3")
      from Pair Some Inr p t k show ?thesis
        by (simp add: executeSend_body_def retrieve_context_frame resolve_target_frame
            try_block_frame catch_block_frame map_final_def set_voice_loading)
    qed
  qed
qed

lemma executeSend_frame:
  "trace (executeSend E m (set_voice i v n s)) = trace (executeSend E m s)"
  "set_voice i' v' n' (final (executeSend E m (set_voice i v n s))) =
   set_voice i' v' n' (final (executeSend E m s))"
proof -
  have l: "(set_voice i v n s)\<lparr> input := [], isLoading := True \<rparr> =
      set_voice [] v n (s\<lparr> input := [], isLoading := True \<rparr>)"
    by (simp add: set_voice_def)
  have m: "\<And>g r. trace (map_final g r) = trace r" "\<And>g r. final (map_final g r) = g (final r)"
    by (simp_all add: map_final_def split: outcome.splits)
  show "trace (executeSend E m (set_voice i v n s)) = trace (executeSend E m s)"
    unfolding executeSend_def set_voice_fields l executeSend_body_frame
    by (simp add: m)
  show "set_voice i' v' n' (final (executeSend E m (set_voice i v n s))) =
   set_voice i' v' n' (final (executeSend E m s))"
    unfolding executeSend_def set_voice_fields l executeSend_body_frame
    by (simp add: m set_voice_twice)
qed

lemma sendCommandSuffix_length: "sendCommandSuffix w \<Longrightarrow> length w = 5"
  by (simp add: sendCommandSuffix_def split: list.splits)

lemma sendCommandRegex_match:
  assumes "sendCommandSuffix w"
  shows "sendCommandRegex_test (body @ w)" "sendCommandRegex_replace (body @ w) = body"
proof -
  from sendCommandSuffix_length [OF assms] have l: "length w = 5" .
  then show t: "sendCommandRegex_test (body @ w)"
    using assms by (simp add: sendCommandRegex_test_def)
  from t l show "sendCommandRegex_replace (body @ w) = body"
    by (simp add: sendCommandRegex_replace_def)
qed

lemma onresult_send:
  assumes "results \<noteq> []" "isFinal (last results)"
    and "concat (map transcript (drop (utteranceStartIndex s) results)) = body @ w"
    and "sendCommandSuffix w" and "trim body \<noteq> []"
  shows "onresult results s = Inr (set_voice (body @ w) (Some (trim body)) (length results) s)"
  using assms sendCommandRegex_match [OF assms(4), of body]
  by (simp add: onresult_def set_voice_def Let_def)

lemma rev_dropWhile_split:
  "rev (dropWhile P (rev v)) @ rev (takeWhile P (rev v)) = v"
proof -
  have "rev (dropWhile P (rev v)) @ rev (takeWhile P (rev v)) =
      rev (takeWhile P (rev v) @ dropWhile P (rev v))"
    by (simp only: rev_append)
  also have "\<dots> = rev (rev v)" by (simp only: takeWhile_dropWhile_id)
  also have "\<dots> = v" by simp
  finally show ?thesis .
qed

lemma trim_decomp:
  "\<exists>lead tail. u = lead @ trim u @ tail \<and> list_all isWhiteSpace lead \<and>
     list_all isWhiteSpace tail"
proof -
  define v where "v = dropWhile isWhiteSpace u"
  have u: "u = takeWhile isWhiteSpace u @ v"
    by (simp add: v_def)
  have v: "v = trim u @ rev (takeWhile isWhiteSpace (rev v))"
    using rev_dropWhile_split [of isWhiteSpace v] by (simp add: trim_def v_def)
  have a: "list_all isWhiteSpace (takeWhile isWhiteSpace u)"
    by (auto simp: list_all_iff dest: set_takeWhileD)
  have b: "list_all isWhiteSpace (rev (takeWhile isWhiteSpace (rev v)))"
    by (auto simp: list_all_iff dest: set_takeWhileD)
  from u v have "u = takeWhile isWhiteSpace u @ trim u @ rev (takeWhile isWhiteSpace (rev v))"
    by simp
  with a b show ?thesis by blast
qed

lemma trim_ends:
  assumes "trim u \<noteq> []"
  shows "\<not> isWhiteSpace (hd (trim u))" "\<not> isWhiteSpace (last (trim u))"
proof -
  define v where "v = dropWhile isWhiteSpace u"
  from assms have d: "dropWhile isWhiteSpace (rev v) \<noteq> []"
    by (simp add: trim_def v_def)
  have t: "trim u = rev (dropWhile isWhiteSpace (rev v))"
    by (simp add: trim_def v_def)
  from d have "\<not> isWhiteSpace (hd (dropWhile isWhiteSpace (rev v)))"
    by (rule hd_dropWhile)
  with d show "\<not> isWhiteSpace (last (trim u))"
    by (simp add: t last_rev)
  from d have vne: "v \<noteq> []" by auto
  then have h: "\<not> isWhiteSpace (hd v)"
    unfolding v_def by (rule hd_dropWhile)
  have "v = trim u @ rev (takeWhile isWhiteSpace (rev v))"
    using rev_dropWhile_split [of isWhiteSpace v] by (simp add: t)
  with assms have "hd v = hd (trim u)"
    by (metis hd_append2)
  with h show "\<not> isWhiteSpace (hd (trim u))" by simp
qed

text \<open>
  C9. For every finalized voice utterance whose text ends with a white space followed by
  "send" or "sent" in any letter case, the handler strips these five code units and trims
  the remainder: what it keeps is the remainder without its leading and trailing white
  space, so it neither starts nor ends with white space. When that text is non-empty, it
  is stored as the voice command and the utterance boundary moves to the end of the
  results, so that the buffer of any later result list holds the later results only. The
  effect on the voice command then calls \<open>executeSend\<close> with that text, as the Enter key
  does with the typed input: both runs issue the same effects and leave the same state up
  to the input and voice fields.
\<close>

theorem voice_send_command:
  assumes "results \<noteq> []" "isFinal (last results)"
    and "concat (map transcript (drop (utteranceStartIndex s) results)) = body @ w"
    and "sendCommandSuffix w" and "trim body \<noteq> []"
  shows "onresult results s =
           Inr (s\<lparr> input := body @ w, voiceCommandToSend := Some (trim body),
                   utteranceStartIndex := length results \<rparr>) \<and>
         voiceCommandEffect E (state_of (onresult results s)) =
           map_final (\<lambda>s'. s'\<lparr> voiceCommandToSend := None \<rparr>)
             (executeSend E (trim body) (state_of (onresult results s))) \<and>
         trace (voiceCommandEffect E (state_of (onresult results s))) =
           trace (handleKeyPress E (js ''Enter'') (s\<lparr> input := trim body \<rparr>)) \<and>
         set_voice [] None 0 (final (voiceCommandEffect E (state_of (onresult results s)))) =
           set_voice [] None 0 (final (handleKeyPress E (js ''Enter'') (s\<lparr> input := trim body \<rparr>))) \<and>
         (\<forall>more. input (state_of (onresult (results @ more) (state_of (onresult results s)))) =
            concat (map transcript more)) \<and>
         (\<exists>lead tail. body = lead @ trim body @ tail \<and> list_all isWhiteSpace lead \<and>
            list_all isWhiteSpace tail) \<and>
         \<not> isWhiteSpace (hd (trim body)) \<and> \<not> isWhiteSpace (last (trim body))"
proof -
  let ?s' = "set_voice (body @ w) (Some (trim body)) (length results) s"
  have o: "onresult results s = Inr ?s'" by (rule onresult_send [OF assms])
  then have st: "state_of (onresult results s) = ?s'" by (simp add: state_of_def)
  have v: "voiceCommandEffect E ?s' =
      map_final (\<lambda>s'. s'\<lparr> voiceCommandToSend := None \<rparr>) (executeSend E (trim body) ?s')"
    using assms(5) by (simp add: voiceCommandEffect_def set_voice_def)
  have k: "handleKeyPress E (js ''Enter'') (s\<lparr> input := trim body \<rparr>) =
      executeSend E (trim body)
        (set_voice (trim body) (voiceCommandToSend s) (utteranceStartIndex s) s)"
    by (simp add: handleKeyPress_def handleSend_def set_voice_def)
  have mf: "\<And>g r. trace (map_final g r) = trace r" "\<And>g r. final (map_final g r) = g (final r)"
    by (simp_all add: map_final_def split: outcome.splits)
  have tr: "trace (voiceCommandEffect E ?s') =
      trace (handleKeyPress E (js ''Enter'') (s\<lparr> input := trim body \<rparr>))"
    unfolding v k by (simp add: mf executeSend_frame)
  have "set_voice [] None 0 (final (voiceCommandEffect E ?s')) =
      set_voice [] None 0 (final (executeSend E (trim body) ?s'))"
    unfolding v by (simp add: mf set_voice_def)
  also have "\<dots> = set_voice [] None 0 (final (executeSend E (trim body) s))"
    by (rule executeSend_frame)
  also have "\<dots> = set_voice [] None 0 (final (handleKeyPress E (js ''Enter'') (s\<lparr> input := trim body \<rparr>)))"
    unfolding k by (rule executeSend_frame [symmetric])
  finally have fin: "set_voice [] None 0 (final (voiceCommandEffect E ?s')) =
      set_voice [] None 0 (final (handleKeyPress E (js ''Enter'') (s\<lparr> input := trim body \<rparr>)))" .
  have nxt: "\<forall>more. input (state_of (onresult (results @ more) ?s')) = concat (map transcript more)"
    by (simp add: onresult_def state_of_def set_voice_def Let_def)
  have first: "onresult results s =
           Inr (s\<lparr> input := body @ w, voiceCommandToSend := Some (trim body),
                   utteranceStartIndex := length results \<rparr>)"
    using o by (simp add: set_voice_def)
  note trimmed = trim_decomp [of body] trim_ends [OF assms(5)]
  from first v tr fin nxt trimmed show ?thesis
    unfolding st by blast
qed

theorem voice_send_command_witness:
  "voiceCommandToSend (state_of (onresult
      [\<lparr> transcript = js ''what is the weather send'', isFinal = True \<rparr>] demo_app))
     = Some (js ''what is the weather'') \<and>
   utteranceStartIndex (state_of (onresult
      [\<lparr> transcript = js ''what is the weather send'', isFinal = True \<rparr>] demo_app)) = 1 \<and>
   voiceCommandToSend (state_of (onresult
      [\<lparr> transcript = [9, 160, 8232] @ js ''hi there'', isFinal = False \<rparr>,
       \<lparr> transcript = [12288, 65279, 32, 10] @ js ''SeNT'', isFinal = True \<rparr>] demo_app))
     = Some (js ''hi there'') \<and>
   utteranceStartIndex (state_of (onresult
      [\<lparr> transcript = [9, 160, 8232] @ js ''hi there'', isFinal = False \<rparr>,
       \<lparr> transcript = [12288, 65279, 32, 10] @ js ''SeNT'', isFinal = True \<rparr>] demo_app)) = 2"
proof -
  let ?r = "[\<lparr> transcript = js ''what is the weather send'', isFinal = True \<rparr>]"
  let ?q = "[\<lparr> transcript = [9, 160, 8232] @ js ''hi there'', isFinal = False \<rparr>,
       \<lparr> transcript = [12288, 65279, 32, 10] @ js ''SeNT'', isFinal = True \<rparr>]"
  have i: "utteranceStartIndex demo_app = 0"
    by (simp add: demo_app_def handleNewChat_def initialApp_def)
  have a: "?r \<noteq> []" "isFinal (last ?r)" by simp_all
  have b: "concat (map transcript (drop (utteranceStartIndex demo_app) ?r)) =
      js ''what is the weather'' @ js '' send''"
    by (simp add: i js_def)
  have c: "sendCommandSuffix (js '' send'')"
    by (simp add: sendCommandSuffix_def js_def isWhiteSpace_def)
  have d: "trim (js ''what is the weather'') = js ''what is the weather''"
    by (simp add: trim_def js_def isWhiteSpace_def)
  then have e: "trim (js ''what is the weather'') \<noteq> []"
    by (simp add: js_def)
  have a': "?q \<noteq> []" "isFinal (last ?q)" by simp_all
  have b': "concat (map transcript (drop (utteranceStartIndex demo_app) ?q)) =
      ([9, 160, 8232] @ js ''hi there'' @ [12288, 65279, 32]) @ (10 # js ''SeNT'')"
    by (simp add: i js_def)
  have c': "sendCommandSuffix (10 # js ''SeNT'')"
    by (simp add: sendCommandSuffix_def js_def isWhiteSpace_def)
  have d': "trim ([9, 160, 8232] @ js ''hi there'' @ [12288, 65279, 32]) = js ''hi there''"
    by (simp add: trim_def js_def isWhiteSpace_def)
  then have e': "trim ([9, 160, 8232] @ js ''hi there'' @ [12288, 65279, 32]) \<noteq> []"
    by (simp add: js_def)
  from voice_send_command [OF a b c e, of "demo_env ApiError ApiError"]
  have one: "onresult ?r demo_app =
      Inr (demo_app\<lparr> input := js ''what is the weather'' @ js '' send'',
        voiceCommandToSend := Some (trim (js ''what is the weather'')),
        utteranceStartIndex := length ?r \<rparr>)"
    by (rule conjunct1)
  from voice_send_command [OF a' b' c' e', of "demo_env ApiError ApiError"]
  have two: "onresult ?q demo_app =
      Inr (demo_app\<lparr> input := ([9, 160, 8232] @ js ''hi there'' @ [12288, 65279, 32]) @ (10 # js ''SeNT''),
        voiceCommandToSend := Some (trim ([9, 160, 8232] @ js ''hi there'' @ [12288, 65279, 32])),
        utteranceStartIndex := length ?q \<rparr>)"
    by (rule conjunct1)
  show ?thesis
    unfolding one two d d' by (simp add: state_of_def)
qed

section \<open>Persistence: proofs\<close>

lemma activeChat_cong:
  "chats s' = chats s \<Longrightarrow> activeChatId s' = activeChatId s \<Longrightarrow> activeChat s' = activeChat s"
  by (simp add: activeChat_def)

text \<open>
  C2 (as the code has it). On startup the chats are read from the two storage keys. When
  saved chats exist and the stored active id names one of them, the saved list and that
  active id are restored as stored, messages in order. When saved chats exist and the
  stored active id is absent or names none of them, the saved list is restored and its
  first chat becomes active. Exactly when no saved chats exist (the key is absent or holds
  the empty list) a fresh chat, empty and active, is created. Saving a non-empty list with
  a non-empty active id that names one of its chats and reading it back gives the same
  list, active id and active chat.
\<close>

theorem initChats_rehydrates:
  "(chatbot_chats st = Some saved \<and> saved \<noteq> [] \<and> chatbot_active_chat_id st = Some a \<and>
      a \<in> set (map chat_id saved) \<longrightarrow>
      chats (initChats now st s) = saved \<and> activeChatId (initChats now st s) = Some a) \<and>
   (chatbot_chats st = Some saved \<and> saved \<noteq> [] \<and>
      (chatbot_active_chat_id st = None \<or>
       (\<exists>b. chatbot_active_chat_id st = Some b \<and> b \<notin> set (map chat_id saved))) \<longrightarrow>
      chats (initChats now st s) = saved \<and>
      activeChatId (initChats now st s) = Some (chat_id (hd saved))) \<and>
   (chatbot_chats st = None \<or> chatbot_chats st = Some [] \<longrightarrow>
      chats (initChats now st s) =
        \<lparr> chat_id = now, title = js ''New Chat'', messages = [] \<rparr> # chats s \<and>
      activeChatId (initChats now st s) = Some now) \<and>
   (chats t \<noteq> [] \<and> activeChatId t = Some a \<and> a \<noteq> [] \<and> a \<in> set (map chat_id (chats t)) \<longrightarrow>
      chats (initChats now (saveChats t st) s) = chats t \<and>
      activeChatId (initChats now (saveChats t st) s) = activeChatId t \<and>
      activeChat (initChats now (saveChats t st) s) = activeChat t)"
proof (intro conjI impI)
  assume h: "chatbot_chats st = Some saved \<and> saved \<noteq> [] \<and> chatbot_active_chat_id st = Some a \<and>
      a \<in> set (map chat_id saved)"
  then have "list_ex (\<lambda>c. Some (chat_id c) = Some a) saved"
    by (auto simp: list_ex_iff)
  with h show "chats (initChats now st s) = saved" "activeChatId (initChats now st s) = Some a"
    by (simp_all add: initChats_def Let_def)
next
  assume h: "chatbot_chats st = Some saved \<and> saved \<noteq> [] \<and>
      (chatbot_active_chat_id st = None \<or>
       (\<exists>b. chatbot_active_chat_id st = Some b \<and> b \<notin> set (map chat_id saved)))"
  then have "\<not> list_ex (\<lambda>c. Some (chat_id c) = chatbot_active_chat_id st) saved"
    by (auto simp: list_ex_iff)
  with h show "chats (initChats now st s) = saved"
    "activeChatId (initChats now st s) = Some (chat_id (hd saved))"
    by (simp_all add: initChats_def Let_def hd_conv_nth)
next
  assume "chatbot_chats st = None \<or> chatbot_chats st = Some []"
  then show "chats (initChats now st s) =
        \<lparr> chat_id = now, title = js ''New Chat'', messages = [] \<rparr> # chats s"
    "activeChatId (initChats now st s) = Some now"
    by (auto simp: initChats_def handleNewChat_def)
next
  assume h: "chats t \<noteq> [] \<and> activeChatId t = Some a \<and> a \<noteq> [] \<and> a \<in> set (map chat_id (chats t))"
  then have e: "list_ex (\<lambda>c. Some (chat_id c) = Some a) (chats t)"
    by (auto simp: list_ex_iff)
  with h show c: "chats (initChats now (saveChats t st) s) = chats t"
    and i: "activeChatId (initChats now (saveChats t st) s) = activeChatId t"
    by (simp_all add: initChats_def saveChats_def Let_def)
  show "activeChat (initChats now (saveChats t st) s) = activeChat t"
    by (rule activeChat_cong [OF c i])
qed

theorem initChats_rehydrates_witness:
  "chats (initChats (js ''3'') (saveChats demo_app_talked
      \<lparr> chatbot_chats = None, chatbot_active_chat_id = None \<rparr>) (initialApp (js ''k'')))
     = chats demo_app_talked \<and>
   activeChat (initChats (js ''3'') (saveChats demo_app_talked
      \<lparr> chatbot_chats = None, chatbot_active_chat_id = None \<rparr>) (initialApp (js ''k'')))
     = activeChat demo_app_talked \<and>
   activeChatId (initChats (js ''3'')
      \<lparr> chatbot_chats = Some (chats demo_app_talked), chatbot_active_chat_id = Some (js ''1'') \<rparr>
      (initialApp (js ''k''))) = Some (js ''1'') \<and>
   activeChatId (initChats (js ''3'')
      \<lparr> chatbot_chats = Some (chats demo_app_talked), chatbot_active_chat_id = Some (js ''7'') \<rparr>
      (initialApp (js ''k''))) = Some (chat_id (hd (chats demo_app_talked))) \<and>
   chats (initChats (js ''3'') \<lparr> chatbot_chats = Some [], chatbot_active_chat_id = Some (js ''7'') \<rparr>
      (initialApp (js ''k''))) = [\<lparr> chat_id = js ''3'', title = js ''New Chat'', messages = [] \<rparr>]"
proof -
  have f: "chats demo_app_talked \<noteq> []" "activeChatId demo_app_talked = Some (js ''1'')"
    "js ''1'' \<noteq> []" "js ''1'' \<in> set (map chat_id (chats demo_app_talked))"
    "js ''7'' \<notin> set (map chat_id (chats demo_app_talked))"
    "chats (initialApp (js ''k'')) = []"
    by (simp_all add: demo_app_talked_def initialApp_def js_def)
  from initChats_rehydrates [of "\<lparr> chatbot_chats = None, chatbot_active_chat_id = None \<rparr>"
      "chats demo_app_talked" "js ''1''" "js ''3''" "initialApp (js ''k'')" demo_app_talked]
    initChats_rehydrates [of "\<lparr> chatbot_chats = Some (chats demo_app_talked),
        chatbot_active_chat_id = Some (js ''1'') \<rparr>"
      "chats demo_app_talked" "js ''1''" "js ''3''" "initialApp (js ''k'')" demo_app_talked]
    initChats_rehydrates [of "\<lparr> chatbot_chats = Some (chats demo_app_talked),
        chatbot_active_chat_id = Some (js ''7'') \<rparr>"
      "chats demo_app_talked" "js ''1''" "js ''3''" "initialApp (js ''k'')" demo_app_talked]
    initChats_rehydrates [of "\<lparr> chatbot_chats = Some [], chatbot_active_chat_id = Some (js ''7'') \<rparr>"
      "chats demo_app_talked" "js ''1''" "js ''3''" "initialApp (js ''k'')" demo_app_talked]
    f
  show ?thesis by simp
qed


theorem initChats_dangling_active_counterexample:
  "chats (initChats (js ''3'')
      \<lparr> chatbot_chats = Some [\<lparr> chat_id = js ''1'', title = js ''T'', messages = [] \<rparr>],
        chatbot_active_chat_id = Some (js ''2'') \<rparr> (initialApp []))
     = [\<lparr> chat_id = js ''1'', title = js ''T'', messages = [] \<rparr>] \<and>
   activeChatId (initChats (js ''3'')
      \<lparr> chatbot_chats = Some [\<lparr> chat_id = js ''1'', title = js ''T'', messages = [] \<rparr>],
        chatbot_active_chat_id = Some (js ''2'') \<rparr> (initialApp []))
     = Some (js ''1'') \<and>
   \<lparr> chat_id = js ''3'', title = js ''New Chat'', messages = [] \<rparr> \<notin> set (chats (initChats (js ''3'')
      \<lparr> chatbot_chats = Some [\<lparr> chat_id = js ''1'', title = js ''T'', messages = [] \<rparr>],
        chatbot_active_chat_id = Some (js ''2'') \<rparr> (initialApp [])))"
  by (simp add: initChats_def initialApp_def js_def)

section \<open>Document store: proofs\<close>

lemma handleFileUpload_docs:
  "apiKey s \<noteq> [] \<Longrightarrow>
   loadedDocuments (fst (handleFileUpload files s)) =
     loadedDocuments s @ filter (\<lambda>d. name d \<notin> set (map name (loadedDocuments s))) files"
  by (simp add: handleFileUpload_def Let_def)

lemma handleFileUpload_existing_name_noop:
  assumes "name d \<in> set (map name (loadedDocuments s))"
  shows "fst (handleFileUpload [d] s) = s"
  using assms by (simp add: handleFileUpload_def Let_def)

lemma handleFileUpload_twice:
  "fst (handleFileUpload [d] (fst (handleFileUpload [d] s))) = fst (handleFileUpload [d] s)"
  by (simp add: handleFileUpload_def Let_def)

lemma handleFileUpload_distinct:
  assumes "distinct (map name (loadedDocuments s))" "distinct (map name files)"
  shows "distinct (map name (loadedDocuments (fst (handleFileUpload files s))))"
proof -
  have "set (map name (loadedDocuments s)) \<inter>
      set (map name (filter (\<lambda>d. name d \<notin> set (map name (loadedDocuments s))) files)) = {}"
    by (auto simp: image_iff)
  with assms show ?thesis
    by (simp add: handleFileUpload_def Let_def distinct_map_filter)
qed

text \<open>
  C8. An upload whose name is already in the store leaves the store as it is, and a file
  uploaded twice in two uploads is stored once (the three lemmas above; names stay
  distinct when the names of each uploaded batch are distinct). Two files of one name in
  the same upload are both stored: the filter looks at the names of the previous documents
  only, so the names of the store are then not unique.
\<close>

theorem handleFileUpload_same_batch_duplicates:
  "map name (loadedDocuments (fst (handleFileUpload
      [\<lparr> name = js ''a.txt'', doc_content = js ''x'' \<rparr>,
       \<lparr> name = js ''a.txt'', doc_content = js ''y'' \<rparr>] (initialApp (js ''k'')))))
   = [js ''a.txt'', js ''a.txt''] \<and>
   \<not> distinct (map name (loadedDocuments (fst (handleFileUpload
      [\<lparr> name = js ''a.txt'', doc_content = js ''x'' \<rparr>,
       \<lparr> name = js ''a.txt'', doc_content = js ''y'' \<rparr>] (initialApp (js ''k''))))))"
  by (simp add: handleFileUpload_def initialApp_def js_def)

end
